theory Spec2Isabelle
  imports Main "HOL-Library.AList"
begin

section \<open>Data model\<close>

text \<open>
  The only entity of \<^verbatim>\<open>scan.js\<close> is the listing object built by the three scanners.
  Its price is a JavaScript number that comes out of \<^verbatim>\<open>parseInt\<close>: a double that holds
  an integer (\<open>Num\<close>), an infinity, or \<^verbatim>\<open>NaN\<close>. Once the listing has left the page it
  may also be \<^verbatim>\<open>null\<close> (\<open>Null\<close>). In the other fields \<^verbatim>\<open>null\<close> is \<open>None\<close>.
\<close>

datatype js_number = NaN | Num int | Infinity | MinusInfinity | Null

record listing =
  id' :: string
  price :: js_number
  city :: "string option"
  address :: "string option"
  description :: "string option"
  imageUrl :: "string option"
  url :: string
  dateScanned :: string
  source :: string

text \<open>
  A plain object used as a dictionary (\<^verbatim>\<open>listings\<close>, \<^verbatim>\<open>savedListings\<close>, \<^verbatim>\<open>newListings\<close>)
  is an association list in property order. Every key of the program carries a source
  prefix, so none is an array index and property order is insertion order:
  \<^verbatim>\<open>o[k] = v\<close> is \<open>AList.update k v o\<close>, which overwrites in place or appends.
  For the same reason no key coincides with a property inherited from
  \<^verbatim>\<open>Object.prototype\<close>, and \<^verbatim>\<open>typeof o[k] != 'undefined'\<close> is \<open>map_of o k \<noteq> None\<close>.
\<close>

type_synonym listings = "(string \<times> listing) list"

definition Object_keys :: "listings \<Rightarrow> string list" where
  "Object_keys obj = map fst obj"

definition Object_values :: "listings \<Rightarrow> listing list" where
  "Object_values obj = map snd obj"

text \<open>\<^verbatim>\<open>Object.assign(target, src)\<close>: every property of \<open>src\<close>, in order, is set on \<open>target\<close>.\<close>

definition Object_assign :: "listings \<Rightarrow> listings \<Rightarrow> listings" where
  "Object_assign target src = fold (\<lambda>(k, v) t. AList.update k v t) src target"

text \<open>The failures a scan can raise: a navigation that times out, and a property read on \<^verbatim>\<open>null\<close>.\<close>

datatype error = TimeoutError | TypeError

section \<open>String helpers of the JavaScript runtime\<close>

text \<open>
  Strings are character lists that hold the UTF-8 bytes of the text. Every pattern of the
  program is ASCII, so splitting, matching and replacing work on the bytes as they do on
  the code units of the JavaScript string. White space is the exception: \<^verbatim>\<open>trim\<close> and
  \<^verbatim>\<open>parseInt\<close> drop every white space and line terminator of ECMAScript, most of which
  take two or three bytes.
\<close>

definition isDigit :: "char \<Rightarrow> bool" where
  "isDigit c = (c \<in> set ''0123456789'')"

text \<open>
  The white space and line terminators: U+0009 to U+000D, U+0020, U+00A0, U+1680,
  U+2000 to U+200A, U+2028, U+2029, U+202F, U+205F, U+3000 and U+FEFF.
\<close>

definition white_space :: "string list" where
  "white_space =
     [[CHR 0x09], [CHR 0x0A], [CHR 0x0B], [CHR 0x0C], [CHR 0x0D], [CHR 0x20],
      [CHR 0xC2, CHR 0xA0],
      [CHR 0xE1, CHR 0x9A, CHR 0x80],
      [CHR 0xE2, CHR 0x80, CHR 0x80], [CHR 0xE2, CHR 0x80, CHR 0x81],
      [CHR 0xE2, CHR 0x80, CHR 0x82], [CHR 0xE2, CHR 0x80, CHR 0x83],
      [CHR 0xE2, CHR 0x80, CHR 0x84], [CHR 0xE2, CHR 0x80, CHR 0x85],
      [CHR 0xE2, CHR 0x80, CHR 0x86], [CHR 0xE2, CHR 0x80, CHR 0x87],
      [CHR 0xE2, CHR 0x80, CHR 0x88], [CHR 0xE2, CHR 0x80, CHR 0x89],
      [CHR 0xE2, CHR 0x80, CHR 0x8A],
      [CHR 0xE2, CHR 0x80, CHR 0xA8], [CHR 0xE2, CHR 0x80, CHR 0xA9],
      [CHR 0xE2, CHR 0x80, CHR 0xAF],
      [CHR 0xE2, CHR 0x81, CHR 0x9F],
      [CHR 0xE3, CHR 0x80, CHR 0x80],
      [CHR 0xEF, CHR 0xBB, CHR 0xBF]]"

fun starts_with :: "string \<Rightarrow> string \<Rightarrow> bool" where
  "starts_with [] s = True"
| "starts_with (p # ps) [] = False"
| "starts_with (p # ps) (c # cs) = (p = c \<and> starts_with ps cs)"

text \<open>
  \<open>space_width ws s\<close> is the number of bytes of the white space at the head of \<open>s\<close>,
  0 when \<open>s\<close> starts with none of \<open>ws\<close>.
\<close>

fun space_width :: "string list \<Rightarrow> string \<Rightarrow> nat" where
  "space_width [] s = 0"
| "space_width (w # ws) s = (if starts_with w s then length w else space_width ws s)"

fun drop_spaces :: "string list \<Rightarrow> string \<Rightarrow> string" where
  "drop_spaces ws [] = []"
| "drop_spaces ws (c # cs) =
     (case space_width ws (c # cs) of
        0 \<Rightarrow> c # cs
      | Suc n \<Rightarrow> drop_spaces ws (drop n cs))"

definition trimStart :: "string \<Rightarrow> string" where
  "trimStart s = drop_spaces white_space s"

text \<open>At the end of the string the same is done on the reversed bytes.\<close>

definition trimEnd :: "string \<Rightarrow> string" where
  "trimEnd s = rev (drop_spaces (map rev white_space) (rev s))"

definition trim :: "string \<Rightarrow> string" where
  "trim s = trimEnd (trimStart s)"

text \<open>String concatenation converts \<^verbatim>\<open>null\<close> and \<^verbatim>\<open>undefined\<close> to their names.\<close>

definition str_of_null :: "string option \<Rightarrow> string" where
  "str_of_null v = (case v of None \<Rightarrow> ''null'' | Some s \<Rightarrow> s)"

definition str_of_undefined :: "string option \<Rightarrow> string" where
  "str_of_undefined v = (case v of None \<Rightarrow> ''undefined'' | Some s \<Rightarrow> s)"

text \<open>\<^verbatim>\<open>s.split(c)\<close> for a one-character separator; the result is never empty.\<close>

fun split_char :: "char \<Rightarrow> string \<Rightarrow> string list" where
  "split_char c [] = [[]]"
| "split_char c (x # xs) =
     (if x = c then [] # split_char c xs
      else (case split_char c xs of
              [] \<Rightarrow> [[x]]
            | w # ws \<Rightarrow> (x # w) # ws))"

text \<open>\<^verbatim>\<open>a[i]\<close> on an array: \<^verbatim>\<open>undefined\<close> out of range.\<close>

definition at_index :: "'a list \<Rightarrow> nat \<Rightarrow> 'a option" where
  "at_index xs i = (if i < length xs then Some (xs ! i) else None)"

text \<open>\<^verbatim>\<open>/listing-[0-9]+/.test(s)\<close>: the pattern is not anchored, it may match anywhere in \<open>s\<close>.\<close>

definition listing_digits_here :: "string \<Rightarrow> bool" where
  "listing_digits_here s =
     (starts_with ''listing-'' s \<and>
      (case drop 8 s of [] \<Rightarrow> False | c # _ \<Rightarrow> isDigit c))"

fun test_listing_digits :: "string \<Rightarrow> bool" where
  "test_listing_digits [] = False"
| "test_listing_digits (c # cs) =
     (listing_digits_here (c # cs) \<or> test_listing_digits cs)"

text \<open>\<^verbatim>\<open>s.replace(/[^0-9]/g, '')\<close> keeps the digits.\<close>

definition keep_digits :: "string \<Rightarrow> string" where
  "keep_digits s = filter isDigit s"

text \<open>
  A JavaScript number is a double. \<open>to_double n\<close> is the double nearest to the integer
  \<open>n\<close>: \<open>n\<close> itself below \<open>2 ^ 53\<close>, else \<open>n\<close> rounded to 53 significant bits, ties to
  even, and an infinity from \<open>2 ^ 1024\<close> on.
\<close>

function bit_length :: "int \<Rightarrow> nat" where
  "bit_length n = (if n \<le> 0 then 0 else Suc (bit_length (n div 2)))"
  by pat_completeness auto
termination
  by (relation "measure nat") auto

definition to_double :: "int \<Rightarrow> js_number" where
  "to_double n =
     (let a = \<bar>n\<bar> in
      if a < 9007199254740992 then Num n
      else
        (let e = bit_length a - 53;
             q = a div 2 ^ e;
             r = a mod 2 ^ e;
             half = 2 ^ (e - 1);
             q' = (if half < r \<or> (r = half \<and> odd q) then q + 1 else q);
             v = q' * 2 ^ e
         in if 2 ^ 1024 \<le> v then (if n < 0 then MinusInfinity else Infinity)
            else Num (if n < 0 then - v else v)))"

text \<open>
  \<^verbatim>\<open>parseInt(s)\<close> with no radix: leading white space is dropped, then an optional sign,
  then an optional \<^verbatim>\<open>0x\<close> or \<^verbatim>\<open>0X\<close> that selects radix 16; the longest run of digits
  of the radix is the value, as a double, and \<^verbatim>\<open>NaN\<close> is returned when that run is empty.
\<close>

definition digit_val :: "char \<Rightarrow> int option" where
  "digit_val c =
     (let n = (of_char c :: int) in
      if 48 \<le> n \<and> n \<le> 57 then Some (n - 48)
      else if 97 \<le> n \<and> n \<le> 122 then Some (n - 87)
      else if 65 \<le> n \<and> n \<le> 90 then Some (n - 55)
      else None)"

definition radix_digit :: "int \<Rightarrow> char \<Rightarrow> bool" where
  "radix_digit r c = (case digit_val c of None \<Rightarrow> False | Some d \<Rightarrow> d < r)"

text \<open>The integer that a run of digits denotes, before it is rounded.\<close>

definition radix_value :: "int \<Rightarrow> string \<Rightarrow> int" where
  "radix_value r z = foldl (\<lambda>acc c. acc * r + (case digit_val c of None \<Rightarrow> 0 | Some d \<Rightarrow> d)) 0 z"

definition parseInt_signed :: "bool \<Rightarrow> string \<Rightarrow> js_number" where
  "parseInt_signed negative s =
     (let (r, s') = (if starts_with ''0x'' s \<or> starts_with ''0X'' s then (16, drop 2 s) else (10, s));
          z = takeWhile (radix_digit r) s'
      in if z = [] then NaN
         else to_double (if negative then - radix_value r z else radix_value r z))"

definition parseInt :: "string \<Rightarrow> js_number" where
  "parseInt s =
     (case trimStart s of
        [] \<Rightarrow> NaN
      | c # cs \<Rightarrow>
          if c = CHR ''-'' then parseInt_signed True cs
          else if c = CHR ''+'' then parseInt_signed False cs
          else parseInt_signed False (c # cs))"

text \<open>
  \<^verbatim>\<open>a < b\<close> on numbers: every comparison with \<^verbatim>\<open>NaN\<close> is false, and \<^verbatim>\<open>null\<close> counts
  as 0.
\<close>

definition js_less :: "js_number \<Rightarrow> js_number \<Rightarrow> bool" where
  "js_less a b =
     (case (a, b) of
        (NaN, _) \<Rightarrow> False
      | (_, NaN) \<Rightarrow> False
      | (Infinity, _) \<Rightarrow> False
      | (_, MinusInfinity) \<Rightarrow> False
      | (MinusInfinity, _) \<Rightarrow> True
      | (_, Infinity) \<Rightarrow> True
      | (Num x, Num y) \<Rightarrow> x < y
      | (Num x, Null) \<Rightarrow> x < 0
      | (Null, Num y) \<Rightarrow> 0 < y
      | (Null, Null) \<Rightarrow> False)"

text \<open>
  What \<^verbatim>\<open>page.evaluate\<close> returns has crossed from the page to the program by value, as
  JSON: a number that is \<^verbatim>\<open>NaN\<close> or an infinity arrives as \<^verbatim>\<open>null\<close>.
\<close>

definition number_by_value :: "js_number \<Rightarrow> js_number" where
  "number_by_value v = (case v of Num n \<Rightarrow> Num n | _ \<Rightarrow> Null)"

text \<open>\<^verbatim>\<open>s.split(' - ')[0]\<close>: the text before the first \<^verbatim>\<open>' - '\<close>, all of \<open>s\<close> when there is none.\<close>

fun before_separator :: "string \<Rightarrow> string" where
  "before_separator [] = []"
| "before_separator (c # cs) =
     (if starts_with '' - '' (c # cs) then [] else c # before_separator cs)"

text \<open>
  \<^verbatim>\<open>s.replace(/&w=\d+&h=\d+&/, '&w=640&h=480&')\<close> rewrites the first match only.
  \<open>match_size s\<close> is the text after a match that starts at the head of \<open>s\<close>.
\<close>

definition skip_digits1 :: "string \<Rightarrow> string option" where
  "skip_digits1 s = (if takeWhile isDigit s = [] then None else Some (dropWhile isDigit s))"

definition skip_literal :: "string \<Rightarrow> string \<Rightarrow> string option" where
  "skip_literal p s = (if starts_with p s then Some (drop (length p) s) else None)"

definition match_size :: "string \<Rightarrow> string option" where
  "match_size s =
     (case skip_literal ''&w='' s of None \<Rightarrow> None | Some s1 \<Rightarrow>
     (case skip_digits1 s1 of None \<Rightarrow> None | Some s2 \<Rightarrow>
     (case skip_literal ''&h='' s2 of None \<Rightarrow> None | Some s3 \<Rightarrow>
     (case skip_digits1 s3 of None \<Rightarrow> None | Some s4 \<Rightarrow>
        skip_literal ''&'' s4))))"

fun replace_size :: "string \<Rightarrow> string" where
  "replace_size [] = []"
| "replace_size (c # cs) =
     (case match_size (c # cs) of
        Some after \<Rightarrow> ''&w=640&h=480&'' @ after
      | None \<Rightarrow> c # replace_size cs)"

text \<open>
  \<^verbatim>\<open>formatDate\<close>: year, month and day of the month joined by \<^verbatim>\<open>'-'\<close>, the last two
  padded to two digits. \<^verbatim>\<open>getMonth()\<close> counts from 0.
\<close>

record js_date =
  getFullYear :: nat
  getMonth :: nat
  getDate :: nat

fun toString_nat :: "nat \<Rightarrow> string" where
  "toString_nat n =
     (if n < 10 then [char_of (48 + n)]
      else toString_nat (n div 10) @ [char_of (48 + n mod 10)])"

definition padStart :: "nat \<Rightarrow> char \<Rightarrow> string \<Rightarrow> string" where
  "padStart n c s = replicate (n - length s) c @ s"

definition formatDate :: "js_date \<Rightarrow> string" where
  "formatDate date =
     toString_nat (getFullYear date) @ ''-'' @
     padStart 2 CHR ''0'' (toString_nat (getMonth date + 1)) @ ''-'' @
     padStart 2 CHR ''0'' (toString_nat (getDate date))"

section \<open>The pages, as the scanners see them\<close>

text \<open>
  The headless browser is outside the program. A page is modelled by what the queries
  of \<^verbatim>\<open>scan.js\<close> return on it: for every listing element, the attribute or text behind
  each selector the scanner uses (\<open>None\<close> when \<^verbatim>\<open>querySelector\<close> or
  \<^verbatim>\<open>getAttribute\<close> returns \<^verbatim>\<open>null\<close>), and for the page its pager controls.

  A visit to a site is either a \<^verbatim>\<open>page.goto\<close> that fails, or the page it loads followed
  by the pages that successive uses of the "next" control load. The sequence is finite:
  past its end a click loads nothing.
\<close>

datatype 'p visit = Goto_fails | Goto_loads 'p "'p list"

text \<open>
  A promise that the program has started and never awaits: the wait for a navigation
  that \<^verbatim>\<open>page.waitForNavigation\<close> returns.
\<close>

datatype promise = Navigation_wait

text \<open>
  DuProprio: an element of class \<^verbatim>\<open>search-results-listings-list__item\<close>.
  \<open>dp_id\<close> is its \<^verbatim>\<open>id\<close> attribute, \<open>dp_price\<close>, \<open>dp_city\<close>, \<open>dp_address\<close> and
  \<open>dp_description\<close> the \<^verbatim>\<open>textContent\<close> of the nodes of those names, \<open>dp_img\<close> the
  \<^verbatim>\<open>src\<close> attribute of the image that refers to the element (\<open>Some None\<close>: an image
  with no \<^verbatim>\<open>src\<close>), \<open>dp_link\<close> the \<^verbatim>\<open>href\<close> of the significant link.
\<close>

record duproprio_node =
  dp_sold :: bool
  dp_id :: "string option"
  dp_price :: "string option"
  dp_city :: "string option"
  dp_address :: "string option"
  dp_description :: "string option"
  dp_img :: "string option option"
  dp_link :: "string option"

text \<open>
  \<open>dp_active_last\<close>: the active pager item is the last child of the pager.
  \<open>dp_next\<close>: a pager item follows the active one.
\<close>

record duproprio_page =
  dp_items :: "duproprio_node list"
  dp_active_last :: bool
  dp_next :: bool

text \<open>
  Sutton: an \<^verbatim>\<open>li\<close> with a \<^verbatim>\<open>data-inscription-id\<close> attribute (the selector makes the
  attribute present). \<open>st_details\<close> is the text and the \<^verbatim>\<open>href\<close> of the details link,
  \<open>st_img\<close> the \<^verbatim>\<open>src\<close> property of the photo, \<open>st_prix\<close> the \<^verbatim>\<open>data-prix\<close> attribute.
\<close>

record sutton_node =
  st_vendu :: bool
  st_inscription_id :: string
  st_details :: "(string \<times> string) option"
  st_address :: "string option"
  st_city :: "string option"
  st_img :: "string option"
  st_prix :: "string option"

text \<open>
  \<open>st_next_hidden\<close>: the next-page control carries class \<^verbatim>\<open>hidden\<close>.
  \<open>st_next\<close>: there is a next-page control.
\<close>

record sutton_page =
  st_items :: "sutton_node list"
  st_next_hidden :: bool
  st_next :: bool

text \<open>
  Centris: a thumbnail element. \<open>ct_details\<close> is the \<^verbatim>\<open>data-mlsnumber\<close> attribute and
  the \<^verbatim>\<open>href\<close> of the details link, \<open>ct_img\<close> the \<^verbatim>\<open>src\<close> property of the image,
  \<open>ct_price\<close> the \<^verbatim>\<open>content\<close> attribute of the price node (\<open>Some None\<close>: a price node
  with no such attribute). \<open>ct_sold\<close> records whether the page marks the item as sold;
  no query of the Centris scanner reads it.
\<close>

record centris_node =
  ct_sold :: bool
  ct_details :: "(string option \<times> string) option"
  ct_address :: "string option"
  ct_city :: "string option"
  ct_img :: "string option"
  ct_price :: "string option option"

text \<open>\<open>ct_next_active\<close>: the pager has a "next" link that is not inactive.\<close>

record centris_page =
  ct_items :: "centris_node list"
  ct_next_active :: bool

section \<open>The scanners\<close>

text \<open>
  The calls to \<^verbatim>\<open>verbose\<close> print only under the \<^verbatim>\<open>-v\<close> and \<^verbatim>\<open>-vv\<close> flags and the
  \<^verbatim>\<open>status\<close> string is read only by \<^verbatim>\<open>endWithError\<close>; neither reaches a listing, and
  both are left out of the scanners below.
\<close>

text \<open>A listing, and an object of listings, as \<^verbatim>\<open>page.evaluate\<close> hands them over.\<close>

definition by_value :: "listing \<Rightarrow> listing" where
  "by_value l = l\<lparr>price := number_by_value (price l)\<rparr>"

definition object_by_value :: "listings \<Rightarrow> listings" where
  "object_by_value obj = map (\<lambda>(k, l). (k, by_value l)) obj"

subsection \<open>DuProprio\<close>

text \<open>The \<^verbatim>\<open>id\<close> property of an element is its attribute, or the empty string.\<close>

definition node_id :: "duproprio_node \<Rightarrow> string" where
  "node_id node = (case dp_id node of None \<Rightarrow> [] | Some s \<Rightarrow> s)"

text \<open>
  The function evaluated in the page for one element. Reading \<^verbatim>\<open>textContent\<close>,
  \<^verbatim>\<open>getAttribute\<close> or \<^verbatim>\<open>href\<close> on a missing node is a \<^verbatim>\<open>TypeError\<close>.
\<close>

definition duproprio_in_page :: "duproprio_node \<Rightarrow> string \<Rightarrow> error + listing" where
  "duproprio_in_page node todaysDate =
     (case dp_price node of None \<Rightarrow> Inl TypeError | Some priceText \<Rightarrow>
     (case dp_img node of None \<Rightarrow> Inl TypeError | Some src \<Rightarrow>
     (case dp_link node of None \<Rightarrow> Inl TypeError | Some href \<Rightarrow>
        Inr \<lparr> id' = ''duproprio-'' @ str_of_undefined (at_index (split_char CHR ''-'' (node_id node)) 1),
              price = parseInt (keep_digits priceText),
              city = map_option trim (dp_city node),
              address = map_option trim (dp_address node),
              description = map_option trim (dp_description node),
              imageUrl = src,
              url = href,
              dateScanned = todaysDate,
              source = ''DuProprio'' \<rparr>)))"

text \<open>\<^verbatim>\<open>await page.evaluate(...)\<close>: the listing built in the page, by value.\<close>

definition duproprio_evaluate :: "duproprio_node \<Rightarrow> string \<Rightarrow> error + listing" where
  "duproprio_evaluate node todaysDate =
     (case duproprio_in_page node todaysDate of
        Inl e \<Rightarrow> Inl e
      | Inr l \<Rightarrow> Inr (by_value l))"

text \<open>
  The \<^verbatim>\<open>for\<close> loop over the elements of one page. It writes into \<^verbatim>\<open>listings\<close> as it
  goes, so an exception leaves the entries written so far: the result is the exception,
  if any, and \<^verbatim>\<open>listings\<close>.
\<close>

fun duproprio_for :: "string \<Rightarrow> duproprio_node list \<Rightarrow> listings \<Rightarrow> error option \<times> listings" where
  "duproprio_for todaysDate [] listings = (None, listings)"
| "duproprio_for todaysDate (listingNode # nodes) listings =
     (let listingId = dp_id listingNode in
      if \<not> test_listing_digits (str_of_null listingId)
      then duproprio_for todaysDate nodes listings
      else
        (case listingId of
           None \<Rightarrow> (Some TypeError, listings)
         | Some s \<Rightarrow>
             (let listingId' = str_of_undefined (at_index (split_char CHR ''-'' s) 1) in
              case duproprio_evaluate listingNode todaysDate of
                Inl e \<Rightarrow> (Some e, listings)
              | Inr l \<Rightarrow>
                  duproprio_for todaysDate nodes
                    (AList.update (''duproprio-'' @ listingId') l listings))))"

text \<open>\<^verbatim>\<open>page.$$('.search-results-listings-list__item:not(.is-sold)')\<close>\<close>

definition duproprio_listingNodes :: "duproprio_page \<Rightarrow> duproprio_node list" where
  "duproprio_listingNodes p = filter (\<lambda>n. \<not> dp_sold n) (dp_items p)"

text \<open>
  The \<^verbatim>\<open>do ... while (!isOnLastPage)\<close> loop, on the page shown and the pages still to
  come. The state is \<open>(pageNumber, listings)\<close>; the result is the exception that ended
  the loop, if any, the state, and the promises left behind.

  The array given to \<^verbatim>\<open>Promise.all\<close> is built from left to right: when the next link
  is missing, \<^verbatim>\<open>page.waitForNavigation\<close> has been called by the time
  \<^verbatim>\<open>nextPageLink.click()\<close> raises its \<^verbatim>\<open>TypeError\<close>. The exception leaves the loop and
  nothing awaits the promise of the wait any more. When the link is there, a click that
  loads nothing makes the wait time out inside \<^verbatim>\<open>Promise.all\<close>, which is awaited.
\<close>

fun duproprio_do_while ::
  "string \<Rightarrow> duproprio_page \<Rightarrow> duproprio_page list \<Rightarrow> nat \<times> listings
     \<Rightarrow> error option \<times> nat \<times> listings \<times> promise list" where
  "duproprio_do_while todaysDate p rest (pageNumber, listings) =
     (case duproprio_for todaysDate (duproprio_listingNodes p) listings of
        (Some e, listings') \<Rightarrow> (Some e, pageNumber, listings', [])
      | (None, listings') \<Rightarrow>
          (let isOnLastPage = dp_active_last p in
           if isOnLastPage then (None, pageNumber, listings', [])
           else if \<not> dp_next p
             then (Some TypeError, pageNumber + 1, listings', [Navigation_wait])
           else
             (case rest of
                [] \<Rightarrow> (Some TimeoutError, pageNumber + 1, listings', [])
              | p' # rest' \<Rightarrow> duproprio_do_while todaysDate p' rest' (pageNumber + 1, listings'))))"

declare duproprio_do_while.simps [simp del]

text \<open>The body of the \<^verbatim>\<open>try\<close> block, from \<^verbatim>\<open>page.goto\<close> on.\<close>

definition duproprio_try ::
  "string \<Rightarrow> duproprio_page visit \<Rightarrow> error option \<times> nat \<times> listings \<times> promise list" where
  "duproprio_try todaysDate site =
     (case site of
        Goto_fails \<Rightarrow> (Some TimeoutError, 1, [], [])
      | Goto_loads p rest \<Rightarrow> duproprio_do_while todaysDate p rest (1, []))"

text \<open>
  The scanner: whatever the \<^verbatim>\<open>try\<close> block raises is caught, and \<^verbatim>\<open>listings\<close> is
  returned. The result type has the \<open>Inl\<close> a caller would receive from a rejected
  \<^verbatim>\<open>await\<close>. \<open>duproprio_pending\<close> is what the same scan leaves behind.
\<close>

definition scanDuproprioListings :: "js_date \<Rightarrow> duproprio_page visit \<Rightarrow> error + listings" where
  "scanDuproprioListings date site =
     (let todaysDate = formatDate date in
      case duproprio_try todaysDate site of
        (_, _, listings, _) \<Rightarrow> Inr listings)"

definition duproprio_pending :: "js_date \<Rightarrow> duproprio_page visit \<Rightarrow> promise list" where
  "duproprio_pending date site =
     (let todaysDate = formatDate date in
      case duproprio_try todaysDate site of
        (_, _, _, pending) \<Rightarrow> pending)"

subsection \<open>Sutton\<close>

text \<open>
  The function evaluated in the page builds the listings of the whole page in a local
  object and returns it, so an exception on one element loses the page.
  An element that holds a \<^verbatim>\<open>.vendu\<close> node is passed over before anything is read.
\<close>

definition sutton_record :: "sutton_node \<Rightarrow> string \<Rightarrow> error + listing" where
  "sutton_record listingNode todaysDate =
     (let listingId = st_inscription_id listingNode in
      case st_img listingNode of None \<Rightarrow> Inl TypeError | Some imageUrl' \<Rightarrow>
        (let price' = parseInt (str_of_null (st_prix listingNode)) in
         case st_details listingNode of None \<Rightarrow> Inl TypeError | Some (textContent, href) \<Rightarrow>
           Inr \<lparr> id' = ''sutton-'' @ listingId,
                 price = price',
                 city = map_option trim (st_city listingNode),
                 address = map_option trim (st_address listingNode),
                 description = Some (trim (before_separator textContent)),
                 imageUrl = Some imageUrl',
                 url = href,
                 dateScanned = todaysDate,
                 source = ''Sutton'' \<rparr>))"

fun sutton_for :: "string \<Rightarrow> sutton_node list \<Rightarrow> listings \<Rightarrow> error + listings" where
  "sutton_for todaysDate [] listings = Inr listings"
| "sutton_for todaysDate (listingNode # nodes) listings =
     (if st_vendu listingNode then sutton_for todaysDate nodes listings
      else
        (case sutton_record listingNode todaysDate of
           Inl e \<Rightarrow> Inl e
         | Inr l \<Rightarrow>
             sutton_for todaysDate nodes
               (AList.update (''sutton-'' @ st_inscription_id listingNode) l listings)))"

text \<open>\<^verbatim>\<open>await page.evaluate(...)\<close>: the listings of the page, by value.\<close>

definition sutton_evaluate :: "sutton_page \<Rightarrow> string \<Rightarrow> error + listings" where
  "sutton_evaluate p todaysDate =
     (case sutton_for todaysDate (st_items p) [] of
        Inl e \<Rightarrow> Inl e
      | Inr listings \<Rightarrow> Inr (object_by_value listings))"

text \<open>The loop, with the same \<^verbatim>\<open>Promise.all\<close> as in the DuProprio scanner.\<close>

fun sutton_do_while ::
  "string \<Rightarrow> sutton_page \<Rightarrow> sutton_page list \<Rightarrow> nat \<times> listings
     \<Rightarrow> error option \<times> nat \<times> listings \<times> promise list" where
  "sutton_do_while todaysDate p rest (pageNumber, listings) =
     (case sutton_evaluate p todaysDate of
        Inl e \<Rightarrow> (Some e, pageNumber, listings, [])
      | Inr pageListings \<Rightarrow>
          (let listings' = Object_assign listings pageListings;
               isOnLastPage = st_next_hidden p in
           if isOnLastPage then (None, pageNumber, listings', [])
           else if \<not> st_next p
             then (Some TypeError, pageNumber + 1, listings', [Navigation_wait])
           else
             (case rest of
                [] \<Rightarrow> (Some TimeoutError, pageNumber + 1, listings', [])
              | p' # rest' \<Rightarrow> sutton_do_while todaysDate p' rest' (pageNumber + 1, listings'))))"

declare sutton_do_while.simps [simp del]

definition sutton_try ::
  "string \<Rightarrow> sutton_page visit \<Rightarrow> error option \<times> nat \<times> listings \<times> promise list" where
  "sutton_try todaysDate site =
     (case site of
        Goto_fails \<Rightarrow> (Some TimeoutError, 1, [], [])
      | Goto_loads p rest \<Rightarrow> sutton_do_while todaysDate p rest (1, []))"

definition scanSuttonListings :: "js_date \<Rightarrow> sutton_page visit \<Rightarrow> error + listings" where
  "scanSuttonListings date site =
     (let todaysDate = formatDate date in
      case sutton_try todaysDate site of
        (_, _, listings, _) \<Rightarrow> Inr listings)"

definition sutton_pending :: "js_date \<Rightarrow> sutton_page visit \<Rightarrow> promise list" where
  "sutton_pending date site =
     (let todaysDate = formatDate date in
      case sutton_try todaysDate site of
        (_, _, _, pending) \<Rightarrow> pending)"

subsection \<open>Centris\<close>

text \<open>
  One element of the inner \<^verbatim>\<open>for\<close> loop: \<open>Inl\<close> is an exception, \<open>Inr None\<close> the
  \<^verbatim>\<open>continue\<close> of the price filter, \<open>Inr (Some (key, listing))\<close> an assignment to
  \<^verbatim>\<open>listings[key]\<close>. The comparisons are false on \<^verbatim>\<open>NaN\<close>, so a price that does not
  parse passes the filter.
\<close>

definition centris_record ::
  "int \<Rightarrow> int \<Rightarrow> string \<Rightarrow> centris_node \<Rightarrow> error + (string \<times> listing) option" where
  "centris_record minPrice maxPrice todaysDate listingNode =
     (case ct_details listingNode of None \<Rightarrow> Inl TypeError | Some (mlsnumber, href) \<Rightarrow>
        (let listingId = str_of_null mlsnumber in
         case ct_img listingNode of None \<Rightarrow> Inl TypeError | Some src \<Rightarrow>
           (let imageUrl' = replace_size src in
            case ct_price listingNode of None \<Rightarrow> Inl TypeError | Some content \<Rightarrow>
              (let price' = parseInt (str_of_null content) in
               if js_less price' (to_double minPrice) \<or> js_less (to_double maxPrice) price'
               then Inr None
               else
                 Inr (Some (''centris-'' @ listingId,
                   \<lparr> id' = ''centris-'' @ listingId,
                     price = parseInt (str_of_null content),
                     city = map_option trim (ct_city listingNode),
                     address = map_option trim (ct_address listingNode),
                     description = Some [],
                     imageUrl = Some imageUrl',
                     url = href,
                     dateScanned = todaysDate,
                     source = ''Centris'' \<rparr>))))))"

fun centris_for ::
  "int \<Rightarrow> int \<Rightarrow> string \<Rightarrow> centris_node list \<Rightarrow> listings \<Rightarrow> error + listings" where
  "centris_for minPrice maxPrice todaysDate [] listings = Inr listings"
| "centris_for minPrice maxPrice todaysDate (listingNode # nodes) listings =
     (case centris_record minPrice maxPrice todaysDate listingNode of
        Inl e \<Rightarrow> Inl e
      | Inr None \<Rightarrow> centris_for minPrice maxPrice todaysDate nodes listings
      | Inr (Some (k, l)) \<Rightarrow>
          centris_for minPrice maxPrice todaysDate nodes (AList.update k l listings))"

text \<open>
  A click on the "next" link replaces the content of the page, with no navigation to
  wait for; past the end of the sequence the content stays as it is.
\<close>

definition centris_click :: "centris_page \<times> centris_page list \<Rightarrow> centris_page \<times> centris_page list" where
  "centris_click b = (case snd b of [] \<Rightarrow> b | p' # rest' \<Rightarrow> (p', rest'))"

text \<open>
  The \<^verbatim>\<open>while\<close> loop that runs inside the page, on the content shown and the contents
  still to come; the state is \<open>(pageNumber, listings)\<close>. The loop has no bound of its
  own: \<open>None\<close> is a loop that does not return.
\<close>

partial_function (option) centris_while ::
  "int \<Rightarrow> int \<Rightarrow> string \<Rightarrow> centris_page \<times> centris_page list \<Rightarrow> nat \<times> listings
     \<Rightarrow> (error + nat \<times> listings) option" where
  "centris_while minPrice maxPrice todaysDate b st =
     (if \<not> ct_next_active (fst b) then Some (Inr st)
      else
        (let b' = (if fst st > 1 then centris_click b else b) in
         case centris_for minPrice maxPrice todaysDate (ct_items (fst b')) (snd st) of
           Inl e \<Rightarrow> Some (Inl e)
         | Inr listings' \<Rightarrow>
             centris_while minPrice maxPrice todaysDate b' (fst st + 1, listings')))"

declare centris_while.simps [code]

text \<open>
  \<^verbatim>\<open>await page.evaluate(...)\<close>: the loop from \<^verbatim>\<open>pageNumber = 1\<close> and no listing, and
  its listings by value.
\<close>

definition centris_evaluate ::
  "int \<Rightarrow> int \<Rightarrow> string \<Rightarrow> centris_page \<times> centris_page list \<Rightarrow> (error + nat \<times> listings) option" where
  "centris_evaluate minPrice maxPrice todaysDate b =
     (case centris_while minPrice maxPrice todaysDate b (1, []) of
        None \<Rightarrow> None
      | Some (Inl e) \<Rightarrow> Some (Inl e)
      | Some (Inr (pageNumber, listings)) \<Rightarrow> Some (Inr (pageNumber, object_by_value listings)))"

text \<open>
  \<^verbatim>\<open>scannedListings\<close> is assigned only when the evaluation returns: an exception leaves
  it empty.
\<close>

definition scanCentrisListings ::
  "js_date \<Rightarrow> int \<Rightarrow> int \<Rightarrow> centris_page visit \<Rightarrow> (error + listings) option" where
  "scanCentrisListings date minPrice maxPrice site =
     (let todaysDate = formatDate date in
      case site of
        Goto_fails \<Rightarrow> Some (Inr [])
      | Goto_loads p rest \<Rightarrow>
          (case centris_evaluate minPrice maxPrice todaysDate (p, rest) of
             None \<Rightarrow> None
           | Some (Inl e) \<Rightarrow> Some (Inr [])
           | Some (Inr (_, listings)) \<Rightarrow> Some (Inr listings)))"

section \<open>The main function\<close>

text \<open>
  What a run leaves behind: the lines printed on the console, the exit code of the
  process, the argument of every call to \<^verbatim>\<open>sendEmailNotification\<close> and the object
  serialised by every call to \<^verbatim>\<open>fs.writeFile\<close> on \<^verbatim>\<open>listings.json\<close>.
  The only lines the program prints without \<^verbatim>\<open>-v\<close> or \<^verbatim>\<open>-vv\<close> are the two JSON results:
  \<open>Success_json message\<close> is \<^verbatim>\<open>{ success: true, message }\<close>, \<open>Failure_json e\<close> is
  \<^verbatim>\<open>{ success: false, message, status }\<close> for the exception \<open>e\<close>.
\<close>

datatype console_line = Success_json string | Failure_json error

record run =
  stdout :: "console_line list"
  exitCode :: nat
  notifications :: "listings list"
  writes :: "listings list"

text \<open>
  What a run starts from: the date, the three sites, the price bounds of
  \<^verbatim>\<open>config.json\<close> and the content of \<^verbatim>\<open>listings.json\<close>, which \<^verbatim>\<open>require\<close> loads
  into \<^verbatim>\<open>savedListings\<close>.
\<close>

record world =
  today :: js_date
  duproprio :: "duproprio_page visit"
  centris :: "centris_page visit"
  sutton :: "sutton_page visit"
  minPrice :: int
  maxPrice :: int
  listings_json :: listings

text \<open>
  \<^verbatim>\<open>
  for (const listing of Object.values(scannedListings)) {
      if (typeof savedListings[listing.id] != 'undefined') { continue; }
      newListings[listing.id] = listing;
      savedListings[listing.id] = listing;
  }
  \<close>
  The state of the loop is the pair \<open>(newListings, savedListings)\<close>.
\<close>

fun dedup_loop :: "listing list \<Rightarrow> listings \<times> listings \<Rightarrow> listings \<times> listings" where
  "dedup_loop [] st = st"
| "dedup_loop (l # rest) (newListings, savedListings) =
     (if map_of savedListings (id' l) \<noteq> None
      then dedup_loop rest (newListings, savedListings)
      else dedup_loop rest
             (AList.update (id' l) l newListings, AList.update (id' l) l savedListings))"

definition reconcile :: "listings \<Rightarrow> listings \<Rightarrow> listings \<times> listings" where
  "reconcile scannedListings savedListings =
     dedup_loop (Object_values scannedListings) ([], savedListings)"

text \<open>
  The three scans, in the order of the source, and the merge of their results. An
  \<open>Inl\<close> is an exception that leaves the \<^verbatim>\<open>try\<close> block of the main function; \<open>None\<close>
  is a scan that does not return.
\<close>

definition scan_websites :: "world \<Rightarrow> (error + listings) option" where
  "scan_websites w =
     (case scanDuproprioListings (today w) (duproprio w) of
        Inl e \<Rightarrow> Some (Inl e)
      | Inr duProprioListings \<Rightarrow>
     (case scanCentrisListings (today w) (minPrice w) (maxPrice w) (centris w) of
        None \<Rightarrow> None
      | Some (Inl e) \<Rightarrow> Some (Inl e)
      | Some (Inr centrisListings) \<Rightarrow>
     (case scanSuttonListings (today w) (sutton w) of
        Inl e \<Rightarrow> Some (Inl e)
      | Inr suttonListings \<Rightarrow>
          Some (Inr (Object_assign (Object_assign duProprioListings centrisListings)
                       suttonListings)))))"

text \<open>
  The rest of the \<^verbatim>\<open>try\<close> block. \<^verbatim>\<open>sendEmailNotification\<close> has an empty body and the
  promise around \<^verbatim>\<open>fs.writeFile\<close> resolves whatever the outcome, so nothing is raised
  here, and the exit code is left at its default, 0.
\<close>

definition report :: "listings \<Rightarrow> listings \<Rightarrow> run" where
  "report scannedListings savedListings =
     (case reconcile scannedListings savedListings of
        (newListings, savedListings') \<Rightarrow>
          if length (Object_keys newListings) \<noteq> 0
          then \<lparr> stdout = [], exitCode = 0,
                 notifications = [newListings], writes = [savedListings'] \<rparr>
          else \<lparr> stdout = [], exitCode = 0, notifications = [], writes = [] \<rparr>)"

definition endWithError :: "error \<Rightarrow> run" where
  "endWithError message =
     \<lparr> stdout = [Failure_json message], exitCode = 1, notifications = [], writes = [] \<rparr>"

text \<open>\<^verbatim>\<open>endWithSuccess\<close> is declared in the source; no call to it exists.\<close>

definition endWithSuccess :: "string \<Rightarrow> run" where
  "endWithSuccess message =
     \<lparr> stdout = [Success_json message], exitCode = 0, notifications = [], writes = [] \<rparr>"

text \<open>
  The promises that the scans of a run have left behind. No later statement awaits them,
  so nothing handles the rejection of any of them, and a rejection that nothing handles
  ends the process with exit code 1. The runs have no clock here: the rejection is taken
  to arrive once the run has notified and written, as it does when \<^verbatim>\<open>browser.close()\<close>
  cuts the connection before the 60 seconds of the wait are over.
\<close>

definition unhandled_rejections :: "world \<Rightarrow> promise list" where
  "unhandled_rejections w =
     duproprio_pending (today w) (duproprio w) @ sutton_pending (today w) (sutton w)"

definition process_exit :: "promise list \<Rightarrow> run \<Rightarrow> run" where
  "process_exit unhandled r = (if unhandled = [] then r else r\<lparr>exitCode := 1\<rparr>)"

definition main :: "world \<Rightarrow> run option" where
  "main w =
     (case scan_websites w of
        None \<Rightarrow> None
      | Some (Inl e) \<Rightarrow> Some (endWithError e)
      | Some (Inr scannedListings) \<Rightarrow>
          Some (process_exit (unhandled_rejections w)
                  (report scannedListings (listings_json w))))"

text \<open>The content of \<^verbatim>\<open>listings.json\<close> after a run: what the last write put there.\<close>

definition listings_json_after :: "world \<Rightarrow> run \<Rightarrow> listings" where
  "listings_json_after w r = (if writes r = [] then listings_json w else last (writes r))"

section \<open>Predicates used in the statements\<close>

text \<open>Every listing of the object is stored under its own \<^verbatim>\<open>id\<close>.\<close>

definition keyed_by_id :: "listings \<Rightarrow> bool" where
  "keyed_by_id obj = list_all (\<lambda>(k, l). id' l = k) obj"

text \<open>The pages of a visit, in the order in which the "next" control shows them.\<close>

definition pages :: "'p visit \<Rightarrow> 'p list" where
  "pages site = (case site of Goto_fails \<Rightarrow> [] | Goto_loads p rest \<Rightarrow> p # rest)"

text \<open>
  \<open>signal_only_on_last signal ps\<close>: the page sequence \<open>ps\<close> is not empty and the terminal
  signal holds on its last page and on no other.
\<close>

definition signal_only_on_last :: "('p \<Rightarrow> bool) \<Rightarrow> 'p list \<Rightarrow> bool" where
  "signal_only_on_last signal ps =
     (ps \<noteq> [] \<and> signal (last ps) \<and> list_all (\<lambda>p. \<not> signal p) (butlast ps))"

text \<open>The union of a sequence of mappings, a later one overriding an earlier one.\<close>

definition union_listings :: "listings list \<Rightarrow> string \<rightharpoonup> listing" where
  "union_listings lss = foldl (\<lambda>m ls. m ++ map_of ls) Map.empty lss"

text \<open>What the extraction finds on one page alone, and whether it raises there.\<close>

definition duproprio_page_listings :: "string \<Rightarrow> duproprio_page \<Rightarrow> listings" where
  "duproprio_page_listings t p = snd (duproprio_for t (duproprio_listingNodes p) [])"

definition duproprio_page_ok :: "string \<Rightarrow> duproprio_page \<Rightarrow> bool" where
  "duproprio_page_ok t p = (fst (duproprio_for t (duproprio_listingNodes p) []) = None)"

definition sutton_page_listings :: "string \<Rightarrow> sutton_page \<Rightarrow> listings" where
  "sutton_page_listings t p = (case sutton_evaluate p t of Inl e \<Rightarrow> [] | Inr ls \<Rightarrow> ls)"

definition sutton_page_ok :: "string \<Rightarrow> sutton_page \<Rightarrow> bool" where
  "sutton_page_ok t p = (case sutton_evaluate p t of Inl e \<Rightarrow> False | Inr ls \<Rightarrow> True)"

definition centris_page_listings :: "int \<Rightarrow> int \<Rightarrow> string \<Rightarrow> centris_page \<Rightarrow> listings" where
  "centris_page_listings lo hi t p =
     (case centris_for lo hi t (ct_items p) [] of Inl e \<Rightarrow> [] | Inr ls \<Rightarrow> ls)"

definition centris_page_ok :: "int \<Rightarrow> int \<Rightarrow> string \<Rightarrow> centris_page \<Rightarrow> bool" where
  "centris_page_ok lo hi t p =
     (case centris_for lo hi t (ct_items p) [] of Inl e \<Rightarrow> False | Inr ls \<Rightarrow> True)"

text \<open>A page without the elements it marks as sold.\<close>

definition duproprio_unsold :: "duproprio_page \<Rightarrow> duproprio_page" where
  "duproprio_unsold p = p\<lparr>dp_items := filter (\<lambda>n. \<not> dp_sold n) (dp_items p)\<rparr>"

definition sutton_unsold :: "sutton_page \<Rightarrow> sutton_page" where
  "sutton_unsold p = p\<lparr>st_items := filter (\<lambda>n. \<not> st_vendu n) (st_items p)\<rparr>"

section \<open>Values that have left the page\<close>

lemma by_value_fields [simp]:
  "id' (by_value l) = id' l"
  "city (by_value l) = city l"
  "address (by_value l) = address l"
  "description (by_value l) = description l"
  "imageUrl (by_value l) = imageUrl l"
  "url (by_value l) = url l"
  "dateScanned (by_value l) = dateScanned l"
  "source (by_value l) = source l"
  "price (by_value l) = number_by_value (price l)"
  by (simp_all add: by_value_def)

lemma object_by_value_keys [simp]: "map fst (object_by_value obj) = map fst obj"
  by (induction obj) (auto simp: object_by_value_def)

lemma object_by_value_Nil [simp]: "object_by_value [] = []"
  by (simp add: object_by_value_def)

lemma set_object_by_value:
  "(k, l) \<in> set (object_by_value obj) \<longleftrightarrow> (\<exists>l0. (k, l0) \<in> set obj \<and> l = by_value l0)"
  by (auto simp: object_by_value_def)

section \<open>Steps of the Centris loop\<close>

lemma centris_while_inactive:
  "\<not> ct_next_active (fst b) \<Longrightarrow> centris_while lo hi t b st = Some (Inr st)"
  by (subst centris_while.simps) simp

lemma centris_while_first:
  "ct_next_active p \<Longrightarrow> centris_for lo hi t (ct_items p) ls = Inr ls' \<Longrightarrow>
   centris_while lo hi t (p, rest) (1, ls) = centris_while lo hi t (p, rest) (2, ls')"
  by (subst centris_while.simps) (simp add: numeral_2_eq_2)

lemma centris_while_click:
  "ct_next_active p \<Longrightarrow> 1 < n \<Longrightarrow> centris_for lo hi t (ct_items p') ls = Inr ls' \<Longrightarrow>
   centris_while lo hi t (p, p' # rest) (n, ls) = centris_while lo hi t (p', rest) (n + 1, ls')"
  by (subst centris_while.simps) (simp add: centris_click_def)

lemma centris_while_raises:
  "ct_next_active p \<Longrightarrow> centris_for lo hi t (ct_items p) ls = Inl e \<Longrightarrow>
   centris_while lo hi t (p, rest) (1, ls) = Some (Inl e)"
  by (subst centris_while.simps) simp

section \<open>The dedup loop\<close>

lemma keyed_by_id_values:
  "keyed_by_id obj \<Longrightarrow> map (\<lambda>l. (id' l, l)) (Object_values obj) = obj"
  by (induction obj) (auto simp: keyed_by_id_def Object_values_def)

lemma dedup_loop_saved:
  "map_of (snd (dedup_loop ls (n, s))) k =
     (case map_of s k of Some v \<Rightarrow> Some v | None \<Rightarrow> map_of (map (\<lambda>l. (id' l, l)) ls) k)"
proof (induction ls arbitrary: n s)
  case Nil
  then show ?case by (simp split: option.splits)
next
  case (Cons l ls)
  then show ?case by (auto simp: update_conv' split: option.splits)
qed

lemma dedup_loop_new:
  "dom (map_of n) \<subseteq> dom (map_of s) \<Longrightarrow>
   map_of (fst (dedup_loop ls (n, s))) k =
     (if map_of s k = None then map_of (map (\<lambda>l. (id' l, l)) ls) k else map_of n k)"
proof (induction ls arbitrary: n s)
  case Nil
  then show ?case by (auto simp: domIff subset_iff)
next
  case (Cons l ls)
  show ?case
  proof (cases "map_of s (id' l) = None")
    case True
    have sub: "dom (map_of (AList.update (id' l) l n)) \<subseteq> dom (map_of (AList.update (id' l) l s))"
      using Cons.prems by (auto simp: update_conv')
    show ?thesis using True Cons.IH [OF sub, of] by (auto simp: update_conv')
  next
    case False
    then show ?thesis using Cons.IH [OF Cons.prems] by auto
  qed
qed

lemma dedup_loop_known:
  "\<forall>l \<in> set ls. map_of s (id' l) \<noteq> None \<Longrightarrow> dedup_loop ls (n, s) = (n, s)"
  by (induction ls) auto

lemma dedup_loop_saved_ids:
  "l \<in> set ls \<Longrightarrow> map_of (snd (dedup_loop ls (n, s))) (id' l) \<noteq> None"
proof -
  assume "l \<in> set ls"
  then have "id' l \<in> fst ` set (map (\<lambda>l. (id' l, l)) ls)" by force
  then have "map_of (map (\<lambda>l. (id' l, l)) ls) (id' l) \<noteq> None"
    by (simp add: map_of_eq_None_iff)
  then show ?thesis by (simp add: dedup_loop_saved split: option.splits)
qed

lemma length_update_ge: "length al \<le> length (AList.update k v al)"
  by (induction al) auto

lemma dedup_loop_length: "length s \<le> length (snd (dedup_loop ls (n, s)))"
proof (induction ls arbitrary: n s)
  case Nil
  then show ?case by simp
next
  case (Cons l ls)
  show ?case
  proof (cases "map_of s (id' l) = None")
    case True
    have "length s \<le> length (AList.update (id' l) l s)" by (rule length_update_ge)
    also have "\<dots> \<le> length (snd (dedup_loop ls (AList.update (id' l) l n, AList.update (id' l) l s)))"
      by (rule Cons.IH)
    finally show ?thesis using True by simp
  next
    case False
    then show ?thesis using Cons.IH [where n = n and s = s] by auto
  qed
qed

text \<open>
  C1, as the code has it. For a merged scan \<open>M\<close> that stores every listing under its own
  id and a persisted mapping \<open>P\<close>: the new listings are the entries of \<open>M\<close> whose id is not
  in \<open>P\<close>; the updated mapping holds \<open>P k\<close> for every id \<open>k\<close> of \<open>P\<close>, also when \<open>M\<close>
  has that id (a listing seen before keeps its stored copy), and \<open>M k\<close> for every other id.
\<close>

theorem reconcile_new_and_saved:
  assumes "keyed_by_id M"
  shows "map_of (fst (reconcile M P)) k = (if k \<in> dom (map_of P) then None else map_of M k) \<and>
    (k \<in> dom (map_of P) \<longrightarrow> map_of (snd (reconcile M P)) k = map_of P k) \<and>
    (k \<notin> dom (map_of P) \<longrightarrow> map_of (snd (reconcile M P)) k = map_of M k)"
  using assms
  by (auto simp: reconcile_def dedup_loop_new dedup_loop_saved keyed_by_id_values domIff split: option.splits)

text \<open>
  C1, witness: the stored listing \<^verbatim>\<open>duproprio-1\<close> is scanned again with a new price; it is
  not new, and the stored copy is the old one.
\<close>

theorem reconcile_new_and_saved_witness:
  "keyed_by_id
      [(''duproprio-1'',
        \<lparr>id' = ''duproprio-1'', price = Num 200000, city = None, address = None,
         description = None, imageUrl = Some ''a.jpg'', url = ''http://a/1'',
         dateScanned = ''2021-01-09'', source = ''DuProprio''\<rparr>),
       (''sutton-7'',
        \<lparr>id' = ''sutton-7'', price = Num 310000, city = None, address = None,
         description = Some ''Maison'', imageUrl = Some ''b.jpg'', url = ''http://b/7'',
         dateScanned = ''2021-01-09'', source = ''Sutton''\<rparr>)]
   \<and> map_of (fst (reconcile
      [(''duproprio-1'',
        \<lparr>id' = ''duproprio-1'', price = Num 200000, city = None, address = None,
         description = None, imageUrl = Some ''a.jpg'', url = ''http://a/1'',
         dateScanned = ''2021-01-09'', source = ''DuProprio''\<rparr>),
       (''sutton-7'',
        \<lparr>id' = ''sutton-7'', price = Num 310000, city = None, address = None,
         description = Some ''Maison'', imageUrl = Some ''b.jpg'', url = ''http://b/7'',
         dateScanned = ''2021-01-09'', source = ''Sutton''\<rparr>)]
      [(''duproprio-1'',
        \<lparr>id' = ''duproprio-1'', price = Num 195000, city = None, address = None,
         description = None, imageUrl = Some ''a.jpg'', url = ''http://a/1'',
         dateScanned = ''2021-01-08'', source = ''DuProprio''\<rparr>)])) ''duproprio-1'' = None
   \<and> map_of (snd (reconcile
      [(''duproprio-1'',
        \<lparr>id' = ''duproprio-1'', price = Num 200000, city = None, address = None,
         description = None, imageUrl = Some ''a.jpg'', url = ''http://a/1'',
         dateScanned = ''2021-01-09'', source = ''DuProprio''\<rparr>),
       (''sutton-7'',
        \<lparr>id' = ''sutton-7'', price = Num 310000, city = None, address = None,
         description = Some ''Maison'', imageUrl = Some ''b.jpg'', url = ''http://b/7'',
         dateScanned = ''2021-01-09'', source = ''Sutton''\<rparr>)]
      [(''duproprio-1'',
        \<lparr>id' = ''duproprio-1'', price = Num 195000, city = None, address = None,
         description = None, imageUrl = Some ''a.jpg'', url = ''http://a/1'',
         dateScanned = ''2021-01-08'', source = ''DuProprio''\<rparr>)])) ''duproprio-1''
     = Some \<lparr>id' = ''duproprio-1'', price = Num 195000, city = None, address = None,
         description = None, imageUrl = Some ''a.jpg'', url = ''http://a/1'',
         dateScanned = ''2021-01-08'', source = ''DuProprio''\<rparr>"
proof -
  have h: "keyed_by_id
      [(''duproprio-1'',
        \<lparr>id' = ''duproprio-1'', price = Num 200000, city = None, address = None,
         description = None, imageUrl = Some ''a.jpg'', url = ''http://a/1'',
         dateScanned = ''2021-01-09'', source = ''DuProprio''\<rparr>),
       (''sutton-7'',
        \<lparr>id' = ''sutton-7'', price = Num 310000, city = None, address = None,
         description = Some ''Maison'', imageUrl = Some ''b.jpg'', url = ''http://b/7'',
         dateScanned = ''2021-01-09'', source = ''Sutton''\<rparr>)]"
    by (simp add: keyed_by_id_def)
  show ?thesis
    using h reconcile_new_and_saved [OF h, where k = "''duproprio-1''" and P = "[(''duproprio-1'',
        \<lparr>id' = ''duproprio-1'', price = Num 195000, city = None, address = None,
         description = None, imageUrl = Some ''a.jpg'', url = ''http://a/1'',
         dateScanned = ''2021-01-08'', source = ''DuProprio''\<rparr>)]"]
    by simp
qed

text \<open>
  C1 as stated fails: \<^verbatim>\<open>duproprio-1\<close> is persisted with price 195000 and scanned again with
  price 200000. After the run its entry is still the persisted one, not the one of the scan.
\<close>

theorem reconcile_refresh_counterexample:
  "keyed_by_id
     [(''duproprio-1'',
       \<lparr>id' = ''duproprio-1'', price = Num 200000, city = None, address = None,
        description = None, imageUrl = Some ''a.jpg'', url = ''http://a/1'',
        dateScanned = ''2021-01-09'', source = ''DuProprio''\<rparr>),
      (''sutton-7'',
       \<lparr>id' = ''sutton-7'', price = Num 310000, city = None, address = None,
        description = Some ''Maison'', imageUrl = Some ''b.jpg'', url = ''http://b/7'',
        dateScanned = ''2021-01-09'', source = ''Sutton''\<rparr>)] \<and>
   map_of
     [(''duproprio-1'',
       \<lparr>id' = ''duproprio-1'', price = Num 200000, city = None, address = None,
        description = None, imageUrl = Some ''a.jpg'', url = ''http://a/1'',
        dateScanned = ''2021-01-09'', source = ''DuProprio''\<rparr>),
      (''sutton-7'',
       \<lparr>id' = ''sutton-7'', price = Num 310000, city = None, address = None,
        description = Some ''Maison'', imageUrl = Some ''b.jpg'', url = ''http://b/7'',
        dateScanned = ''2021-01-09'', source = ''Sutton''\<rparr>)] ''duproprio-1''
   = Some \<lparr>id' = ''duproprio-1'', price = Num 200000, city = None, address = None,
         description = None, imageUrl = Some ''a.jpg'', url = ''http://a/1'',
         dateScanned = ''2021-01-09'', source = ''DuProprio''\<rparr> \<and>
   map_of (snd (reconcile
     [(''duproprio-1'',
       \<lparr>id' = ''duproprio-1'', price = Num 200000, city = None, address = None,
        description = None, imageUrl = Some ''a.jpg'', url = ''http://a/1'',
        dateScanned = ''2021-01-09'', source = ''DuProprio''\<rparr>),
      (''sutton-7'',
       \<lparr>id' = ''sutton-7'', price = Num 310000, city = None, address = None,
        description = Some ''Maison'', imageUrl = Some ''b.jpg'', url = ''http://b/7'',
        dateScanned = ''2021-01-09'', source = ''Sutton''\<rparr>)]
     [(''duproprio-1'',
       \<lparr>id' = ''duproprio-1'', price = Num 195000, city = None, address = None,
        description = None, imageUrl = Some ''a.jpg'', url = ''http://a/1'',
        dateScanned = ''2021-01-08'', source = ''DuProprio''\<rparr>)])) ''duproprio-1''
   = Some \<lparr>id' = ''duproprio-1'', price = Num 195000, city = None, address = None,
         description = None, imageUrl = Some ''a.jpg'', url = ''http://a/1'',
         dateScanned = ''2021-01-08'', source = ''DuProprio''\<rparr> \<and>
   map_of (snd (reconcile
     [(''duproprio-1'',
       \<lparr>id' = ''duproprio-1'', price = Num 200000, city = None, address = None,
        description = None, imageUrl = Some ''a.jpg'', url = ''http://a/1'',
        dateScanned = ''2021-01-09'', source = ''DuProprio''\<rparr>),
      (''sutton-7'',
       \<lparr>id' = ''sutton-7'', price = Num 310000, city = None, address = None,
        description = Some ''Maison'', imageUrl = Some ''b.jpg'', url = ''http://b/7'',
        dateScanned = ''2021-01-09'', source = ''Sutton''\<rparr>)]
     [(''duproprio-1'',
       \<lparr>id' = ''duproprio-1'', price = Num 195000, city = None, address = None,
        description = None, imageUrl = Some ''a.jpg'', url = ''http://a/1'',
        dateScanned = ''2021-01-08'', source = ''DuProprio''\<rparr>)])) ''duproprio-1''
   \<noteq> map_of
     [(''duproprio-1'',
       \<lparr>id' = ''duproprio-1'', price = Num 200000, city = None, address = None,
        description = None, imageUrl = Some ''a.jpg'', url = ''http://a/1'',
        dateScanned = ''2021-01-09'', source = ''DuProprio''\<rparr>),
      (''sutton-7'',
       \<lparr>id' = ''sutton-7'', price = Num 310000, city = None, address = None,
        description = Some ''Maison'', imageUrl = Some ''b.jpg'', url = ''http://b/7'',
        dateScanned = ''2021-01-09'', source = ''Sutton''\<rparr>)] ''duproprio-1''"
  by (simp add: reconcile_def Object_values_def keyed_by_id_def)

text \<open>
  C5. A second reconciliation of the same scan \<open>M\<close> against the mapping the first one
  produced finds no new listing.
\<close>

theorem reconcile_twice: "fst (reconcile M (snd (reconcile M P))) = []"
proof -
  obtain n s where ns: "dedup_loop (Object_values M) ([], P) = (n, s)" by force
  have "\<forall>l \<in> set (Object_values M). map_of s (id' l) \<noteq> None"
    using dedup_loop_saved_ids [of _ "Object_values M" "[]" P] ns by auto
  then show ?thesis
    by (simp add: reconcile_def ns dedup_loop_known)
qed

text \<open>
  C10. The reconciliation removes nothing: every id of the persisted mapping \<open>P\<close> is an id
  of the updated mapping, which has at least as many entries.
\<close>

theorem reconcile_keeps: "dom (map_of P) \<subseteq> dom (map_of (snd (reconcile M P))) \<and> length P \<le> length (snd (reconcile M P))"
  by (auto simp: reconcile_def dedup_loop_saved dedup_loop_length)

section \<open>What the scanners catch, and what they miss\<close>

lemma scanDuproprioListings_Inr: "\<exists>ls. scanDuproprioListings d s = Inr ls"
  by (simp add: scanDuproprioListings_def split: prod.splits)

lemma scanSuttonListings_Inr: "\<exists>ls. scanSuttonListings d s = Inr ls"
  by (simp add: scanSuttonListings_def split: prod.splits)

lemma scanCentrisListings_not_Inl: "scanCentrisListings d lo hi s \<noteq> Some (Inl e)"
  by (simp add: scanCentrisListings_def split: visit.splits option.splits sum.splits prod.splits)

lemma scan_websites_not_Inl: "scan_websites w \<noteq> Some (Inl e)"
  using scanDuproprioListings_Inr [of "today w" "duproprio w"]
    scanSuttonListings_Inr [of "today w" "sutton w"]
    scanCentrisListings_not_Inl [of "today w" "minPrice w" "maxPrice w" "centris w"]
  by (auto simp: scan_websites_def split: sum.splits option.splits)

lemma main_Some:
  "main w = Some r \<Longrightarrow>
   \<exists>scanned. scan_websites w = Some (Inr scanned) \<and>
     r = process_exit (unhandled_rejections w) (report scanned (listings_json w))"
  using scan_websites_not_Inl [of w]
  by (auto simp: main_def split: option.splits sum.splits)

lemma process_exit_effects [simp]:
  "notifications (process_exit ps r) = notifications r"
  "writes (process_exit ps r) = writes r"
  "stdout (process_exit ps r) = stdout r"
  by (simp_all add: process_exit_def)

text \<open>
  What the \<^verbatim>\<open>try\<close> and \<^verbatim>\<open>catch\<close> of the scanners do achieve: the value a scanner
  returns is never an exception. The DuProprio and Sutton scanners return the listings
  gathered up to the failure, the Centris scanner the result of its single evaluation or,
  when that raised, an empty mapping; a run in which the Centris loop returns makes all
  three scans and merges their three results.
\<close>

lemma scanners_return_listings:
  "scanDuproprioListings (today w) (duproprio w) =
     Inr (fst (snd (snd (duproprio_try (formatDate (today w)) (duproprio w))))) \<and>
   scanSuttonListings (today w) (sutton w) =
     Inr (fst (snd (snd (sutton_try (formatDate (today w)) (sutton w))))) \<and>
   scanCentrisListings (today w) (minPrice w) (maxPrice w) (centris w) \<noteq> Some (Inl e) \<and>
   (scan_websites w = None \<and>
      scanCentrisListings (today w) (minPrice w) (maxPrice w) (centris w) = None \<or>
    (\<exists>dp ct st.
      scanDuproprioListings (today w) (duproprio w) = Inr dp \<and>
      scanCentrisListings (today w) (minPrice w) (maxPrice w) (centris w) = Some (Inr ct) \<and>
      scanSuttonListings (today w) (sutton w) = Inr st \<and>
      scan_websites w = Some (Inr (Object_assign (Object_assign dp ct) st))))"
proof -
  obtain dp where dp: "scanDuproprioListings (today w) (duproprio w) = Inr dp"
    using scanDuproprioListings_Inr by blast
  obtain st where st: "scanSuttonListings (today w) (sutton w) = Inr st"
    using scanSuttonListings_Inr by blast
  have a: "scanDuproprioListings (today w) (duproprio w) =
     Inr (fst (snd (snd (duproprio_try (formatDate (today w)) (duproprio w)))))"
    by (simp add: scanDuproprioListings_def split: prod.splits)
  have b: "scanSuttonListings (today w) (sutton w) =
     Inr (fst (snd (snd (sutton_try (formatDate (today w)) (sutton w)))))"
    by (simp add: scanSuttonListings_def split: prod.splits)
  have c: "scanCentrisListings (today w) (minPrice w) (maxPrice w) (centris w) \<noteq> Some (Inl e)"
    by (rule scanCentrisListings_not_Inl)
  show ?thesis
  proof (cases "scanCentrisListings (today w) (minPrice w) (maxPrice w) (centris w)")
    case None
    then have "scan_websites w = None" by (simp add: scan_websites_def dp)
    then show ?thesis using a b c None by simp
  next
    case (Some r)
    then obtain ct where ct: "r = Inr ct"
      using scanCentrisListings_not_Inl [of "today w" "minPrice w" "maxPrice w" "centris w"]
      by (cases r) auto
    have "scan_websites w = Some (Inr (Object_assign (Object_assign dp ct) st))"
      by (simp add: scan_websites_def dp st Some ct)
    then show ?thesis using a b c dp st Some ct by auto
  qed
qed

text \<open>
  What they miss: a page that is not the last and has no next link. The promise of
  \<^verbatim>\<open>page.waitForNavigation\<close> is left behind whenever the loop ends there, and the run
  then ends with exit code 1.
\<close>

lemma duproprio_do_while_pending:
  "snd (snd (snd (duproprio_do_while t p rest st))) \<noteq> [] \<longleftrightarrow>
   fst (duproprio_do_while t p rest st) = Some TypeError \<and>
   snd (snd (snd (duproprio_do_while t p rest st))) = [Navigation_wait]"
proof (induction rest arbitrary: p st)
  case Nil
  obtain n acc where st: "st = (n, acc)" by force
  show ?case
    by (auto simp: st duproprio_do_while.simps Let_def split: prod.splits option.splits)
next
  case (Cons p' rest)
  obtain n acc where st: "st = (n, acc)" by force
  show ?case unfolding st duproprio_do_while.simps [of t p]
    using Cons.IH by (auto simp: Let_def split: prod.splits option.splits)
qed

lemma main_exit_code:
  assumes "main w = Some r"
  shows "exitCode r = (if unhandled_rejections w = [] then 0 else 1)"
proof -
  from main_Some [OF assms] obtain scanned where
    "r = process_exit (unhandled_rejections w) (report scanned (listings_json w))" by blast
  then show ?thesis
    by (simp add: process_exit_def report_def split: prod.splits)
qed

text \<open>
  C7. A failure that no scanner catches. Sutton shows one page with a listing; the page is
  not marked as the last one (the next-page control is not hidden) and has no next-page
  control at all. \<^verbatim>\<open>nextPageLink\<close> is \<^verbatim>\<open>null\<close>: \<^verbatim>\<open>nextPageLink.click()\<close> raises a
  \<^verbatim>\<open>TypeError\<close>, which the \<^verbatim>\<open>catch\<close> of the scanner takes, and the scanner returns the
  listing read so far. \<^verbatim>\<open>page.waitForNavigation\<close> had been called first: the rejection of
  its promise is a failure of the same scan that passes the boundary of the scanner. The
  run notifies and writes, and the process ends with exit code 1.
\<close>

theorem missing_next_link_is_not_caught:
  "fst (sutton_try ''2021-01-09''
     (Goto_loads
        \<lparr>st_items =
           [\<lparr>st_vendu = False, st_inscription_id = ''7'',
             st_details = Some (''Maison - 7 rue X'', ''http://b/7''), st_address = None,
             st_city = None, st_img = Some ''b.jpg'', st_prix = Some ''310000''\<rparr>],
         st_next_hidden = False, st_next = False\<rparr> [])) = Some TypeError \<and>
   scanSuttonListings \<lparr>getFullYear = 2021, getMonth = 0, getDate = 9\<rparr>
     (Goto_loads
        \<lparr>st_items =
           [\<lparr>st_vendu = False, st_inscription_id = ''7'',
             st_details = Some (''Maison - 7 rue X'', ''http://b/7''), st_address = None,
             st_city = None, st_img = Some ''b.jpg'', st_prix = Some ''310000''\<rparr>],
         st_next_hidden = False, st_next = False\<rparr> [])
   = Inr [(''sutton-7'',
          \<lparr>id' = ''sutton-7'', price = Num 310000, city = None, address = None,
           description = Some ''Maison'', imageUrl = Some ''b.jpg'', url = ''http://b/7'',
           dateScanned = ''2021-01-09'', source = ''Sutton''\<rparr>)] \<and>
   sutton_pending \<lparr>getFullYear = 2021, getMonth = 0, getDate = 9\<rparr>
     (Goto_loads
        \<lparr>st_items =
           [\<lparr>st_vendu = False, st_inscription_id = ''7'',
             st_details = Some (''Maison - 7 rue X'', ''http://b/7''), st_address = None,
             st_city = None, st_img = Some ''b.jpg'', st_prix = Some ''310000''\<rparr>],
         st_next_hidden = False, st_next = False\<rparr> [])
   = [Navigation_wait] \<and>
   unhandled_rejections
     \<lparr>today = \<lparr>getFullYear = 2021, getMonth = 0, getDate = 9\<rparr>,
      duproprio = Goto_fails,
      centris = Goto_fails,
      sutton = (Goto_loads
            \<lparr>st_items =
               [\<lparr>st_vendu = False, st_inscription_id = ''7'',
                 st_details = Some (''Maison - 7 rue X'', ''http://b/7''), st_address = None,
                 st_city = None, st_img = Some ''b.jpg'', st_prix = Some ''310000''\<rparr>],
             st_next_hidden = False, st_next = False\<rparr> []),
      minPrice = 100000, maxPrice = 500000,
      listings_json = []\<rparr>
   = [Navigation_wait] \<and>
   main
     \<lparr>today = \<lparr>getFullYear = 2021, getMonth = 0, getDate = 9\<rparr>,
      duproprio = Goto_fails,
      centris = Goto_fails,
      sutton = (Goto_loads
            \<lparr>st_items =
               [\<lparr>st_vendu = False, st_inscription_id = ''7'',
                 st_details = Some (''Maison - 7 rue X'', ''http://b/7''), st_address = None,
                 st_city = None, st_img = Some ''b.jpg'', st_prix = Some ''310000''\<rparr>],
             st_next_hidden = False, st_next = False\<rparr> []),
      minPrice = 100000, maxPrice = 500000,
      listings_json = []\<rparr>
   = Some
     \<lparr>stdout = [], exitCode = 1,
      notifications = [[(''sutton-7'',
          \<lparr>id' = ''sutton-7'', price = Num 310000, city = None, address = None,
           description = Some ''Maison'', imageUrl = Some ''b.jpg'', url = ''http://b/7'',
           dateScanned = ''2021-01-09'', source = ''Sutton''\<rparr>)]],
      writes = [[(''sutton-7'',
          \<lparr>id' = ''sutton-7'', price = Num 310000, city = None, address = None,
           description = Some ''Maison'', imageUrl = Some ''b.jpg'', url = ''http://b/7'',
           dateScanned = ''2021-01-09'', source = ''Sutton''\<rparr>)]]\<rparr>"
proof -
  have tried: "fst (sutton_try ''2021-01-09''
     (Goto_loads
        \<lparr>st_items =
           [\<lparr>st_vendu = False, st_inscription_id = ''7'',
             st_details = Some (''Maison - 7 rue X'', ''http://b/7''), st_address = None,
             st_city = None, st_img = Some ''b.jpg'', st_prix = Some ''310000''\<rparr>],
         st_next_hidden = False, st_next = False\<rparr> [])) = Some TypeError"
    by code_simp
  have dp: "scanDuproprioListings \<lparr>getFullYear = 2021, getMonth = 0, getDate = 9\<rparr> Goto_fails = Inr []"
    by code_simp
  have ct: "scanCentrisListings \<lparr>getFullYear = 2021, getMonth = 0, getDate = 9\<rparr> 100000 500000 Goto_fails = Some (Inr [])"
    by (simp add: scanCentrisListings_def)
  have st: "scanSuttonListings \<lparr>getFullYear = 2021, getMonth = 0, getDate = 9\<rparr>
     (Goto_loads
        \<lparr>st_items =
           [\<lparr>st_vendu = False, st_inscription_id = ''7'',
             st_details = Some (''Maison - 7 rue X'', ''http://b/7''), st_address = None,
             st_city = None, st_img = Some ''b.jpg'', st_prix = Some ''310000''\<rparr>],
         st_next_hidden = False, st_next = False\<rparr> [])
   = Inr [(''sutton-7'',
          \<lparr>id' = ''sutton-7'', price = Num 310000, city = None, address = None,
           description = Some ''Maison'', imageUrl = Some ''b.jpg'', url = ''http://b/7'',
           dateScanned = ''2021-01-09'', source = ''Sutton''\<rparr>)]"
    by code_simp
  have dpp: "duproprio_pending \<lparr>getFullYear = 2021, getMonth = 0, getDate = 9\<rparr> Goto_fails = []"
    by code_simp
  have stp: "sutton_pending \<lparr>getFullYear = 2021, getMonth = 0, getDate = 9\<rparr>
     (Goto_loads
        \<lparr>st_items =
           [\<lparr>st_vendu = False, st_inscription_id = ''7'',
             st_details = Some (''Maison - 7 rue X'', ''http://b/7''), st_address = None,
             st_city = None, st_img = Some ''b.jpg'', st_prix = Some ''310000''\<rparr>],
         st_next_hidden = False, st_next = False\<rparr> [])
   = [Navigation_wait]"
    by code_simp
  have unh: "unhandled_rejections
     \<lparr>today = \<lparr>getFullYear = 2021, getMonth = 0, getDate = 9\<rparr>,
      duproprio = Goto_fails,
      centris = Goto_fails,
      sutton = (Goto_loads
            \<lparr>st_items =
               [\<lparr>st_vendu = False, st_inscription_id = ''7'',
                 st_details = Some (''Maison - 7 rue X'', ''http://b/7''), st_address = None,
                 st_city = None, st_img = Some ''b.jpg'', st_prix = Some ''310000''\<rparr>],
             st_next_hidden = False, st_next = False\<rparr> []),
      minPrice = 100000, maxPrice = 500000,
      listings_json = []\<rparr>
   = [Navigation_wait]"
    by (simp add: unhandled_rejections_def dpp stp)
  have rep: "report (Object_assign (Object_assign [] [])
      [(''sutton-7'',
          \<lparr>id' = ''sutton-7'', price = Num 310000, city = None, address = None,
           description = Some ''Maison'', imageUrl = Some ''b.jpg'', url = ''http://b/7'',
           dateScanned = ''2021-01-09'', source = ''Sutton''\<rparr>)]) []
    = \<lparr>stdout = [], exitCode = 0,
       notifications = [[(''sutton-7'',
          \<lparr>id' = ''sutton-7'', price = Num 310000, city = None, address = None,
           description = Some ''Maison'', imageUrl = Some ''b.jpg'', url = ''http://b/7'',
           dateScanned = ''2021-01-09'', source = ''Sutton''\<rparr>)]],
       writes = [[(''sutton-7'',
          \<lparr>id' = ''sutton-7'', price = Num 310000, city = None, address = None,
           description = Some ''Maison'', imageUrl = Some ''b.jpg'', url = ''http://b/7'',
           dateScanned = ''2021-01-09'', source = ''Sutton''\<rparr>)]]\<rparr>"
    by code_simp
  have m: "main
     \<lparr>today = \<lparr>getFullYear = 2021, getMonth = 0, getDate = 9\<rparr>,
      duproprio = Goto_fails,
      centris = Goto_fails,
      sutton = (Goto_loads
            \<lparr>st_items =
               [\<lparr>st_vendu = False, st_inscription_id = ''7'',
                 st_details = Some (''Maison - 7 rue X'', ''http://b/7''), st_address = None,
                 st_city = None, st_img = Some ''b.jpg'', st_prix = Some ''310000''\<rparr>],
             st_next_hidden = False, st_next = False\<rparr> []),
      minPrice = 100000, maxPrice = 500000,
      listings_json = []\<rparr>
   = Some
     \<lparr>stdout = [], exitCode = 1,
      notifications = [[(''sutton-7'',
          \<lparr>id' = ''sutton-7'', price = Num 310000, city = None, address = None,
           description = Some ''Maison'', imageUrl = Some ''b.jpg'', url = ''http://b/7'',
           dateScanned = ''2021-01-09'', source = ''Sutton''\<rparr>)]],
      writes = [[(''sutton-7'',
          \<lparr>id' = ''sutton-7'', price = Num 310000, city = None, address = None,
           description = Some ''Maison'', imageUrl = Some ''b.jpg'', url = ''http://b/7'',
           dateScanned = ''2021-01-09'', source = ''Sutton''\<rparr>)]]\<rparr>"
    by (simp add: main_def scan_websites_def dp ct st rep
        unhandled_rejections_def dpp stp process_exit_def)
  show ?thesis
    by (intro conjI) (rule tried, rule st, rule stp, rule unh, rule m)
qed

section \<open>Notification and persistence\<close>

text \<open>
  C6. In a run that ends, \<^verbatim>\<open>sendEmailNotification\<close> and \<^verbatim>\<open>fs.writeFile\<close> are each called
  once when the reconciliation of the merged scan finds a new listing, and not at all when
  it finds none; in the latter case \<^verbatim>\<open>listings.json\<close> is left as it was.
\<close>

theorem notify_and_write_iff_new:
  assumes "main w = Some r"
  shows "\<exists>scanned newListings savedListings'.
           scan_websites w = Some (Inr scanned) \<and>
           reconcile scanned (listings_json w) = (newListings, savedListings') \<and>
           notifications r = (if newListings = [] then [] else [newListings]) \<and>
           writes r = (if newListings = [] then [] else [savedListings']) \<and>
           (newListings = [] \<longrightarrow> listings_json_after w r = listings_json w)"
proof -
  from main_Some [OF assms] obtain scanned where
    s: "scan_websites w = Some (Inr scanned)" and
    r: "r = process_exit (unhandled_rejections w) (report scanned (listings_json w))" by blast
  obtain n s' where ns: "reconcile scanned (listings_json w) = (n, s')" by force
  show ?thesis using s r ns
    by (auto simp: report_def listings_json_after_def Object_keys_def)
qed

text \<open>
  C6, witness: the only listing of the scan is already persisted. The run notifies
  nothing and writes nothing.
\<close>

theorem notify_and_write_iff_new_witness:
  "main
     \<lparr>today = \<lparr>getFullYear = 2021, getMonth = 0, getDate = 9\<rparr>,
      duproprio = Goto_fails,
      centris = Goto_fails,
      sutton = Goto_loads
                  \<lparr>st_items =
                     [\<lparr>st_vendu = False, st_inscription_id = ''7'',
                       st_details = Some (''Maison - 7 rue X'', ''http://b/7''), st_address = None,
                       st_city = None, st_img = Some ''b.jpg'', st_prix = Some ''310000''\<rparr>],
                   st_next_hidden = True, st_next = True\<rparr> [],
      minPrice = 100000, maxPrice = 500000,
      listings_json = [(''sutton-7'',
                        \<lparr>id' = ''sutton-7'', price = Num 325000, city = None, address = None,
                         description = Some ''Maison'', imageUrl = Some ''b.jpg'', url = ''http://b/7'',
                         dateScanned = ''2021-01-02'', source = ''Sutton''\<rparr>)]\<rparr>
   = Some 
     \<lparr>stdout = [], exitCode = 0,
      notifications = [],
      writes = []\<rparr> \<and>
   (\<exists>scanned newListings savedListings'.
      scan_websites
        \<lparr>today = \<lparr>getFullYear = 2021, getMonth = 0, getDate = 9\<rparr>,
         duproprio = Goto_fails,
         centris = Goto_fails,
         sutton = Goto_loads
                     \<lparr>st_items =
                        [\<lparr>st_vendu = False, st_inscription_id = ''7'',
                          st_details = Some (''Maison - 7 rue X'', ''http://b/7''), st_address = None,
                          st_city = None, st_img = Some ''b.jpg'', st_prix = Some ''310000''\<rparr>],
                      st_next_hidden = True, st_next = True\<rparr> [],
         minPrice = 100000, maxPrice = 500000,
         listings_json = [(''sutton-7'',
                           \<lparr>id' = ''sutton-7'', price = Num 325000, city = None, address = None,
                            description = Some ''Maison'', imageUrl = Some ''b.jpg'', url = ''http://b/7'',
                            dateScanned = ''2021-01-02'', source = ''Sutton''\<rparr>)]\<rparr>
      = Some (Inr scanned) \<and>
      reconcile scanned
        (listings_json
           \<lparr>today = \<lparr>getFullYear = 2021, getMonth = 0, getDate = 9\<rparr>,
            duproprio = Goto_fails,
            centris = Goto_fails,
            sutton = Goto_loads
                        \<lparr>st_items =
                           [\<lparr>st_vendu = False, st_inscription_id = ''7'',
                             st_details = Some (''Maison - 7 rue X'', ''http://b/7''), st_address = None,
                             st_city = None, st_img = Some ''b.jpg'', st_prix = Some ''310000''\<rparr>],
                         st_next_hidden = True, st_next = True\<rparr> [],
            minPrice = 100000, maxPrice = 500000,
            listings_json = [(''sutton-7'',
                              \<lparr>id' = ''sutton-7'', price = Num 325000, city = None, address = None,
                               description = Some ''Maison'', imageUrl = Some ''b.jpg'', url = ''http://b/7'',
                               dateScanned = ''2021-01-02'', source = ''Sutton''\<rparr>)]\<rparr>)
      = (newListings, savedListings') \<and>
      notifications 
        \<lparr>stdout = [], exitCode = 0,
         notifications = [],
         writes = []\<rparr>
      = (if newListings = [] then [] else [newListings]) \<and>
      writes 
        \<lparr>stdout = [], exitCode = 0,
         notifications = [],
         writes = []\<rparr>
      = (if newListings = [] then [] else [savedListings']) \<and>
      (newListings = [] \<longrightarrow>
         listings_json_after
           \<lparr>today = \<lparr>getFullYear = 2021, getMonth = 0, getDate = 9\<rparr>,
            duproprio = Goto_fails,
            centris = Goto_fails,
            sutton = Goto_loads
                        \<lparr>st_items =
                           [\<lparr>st_vendu = False, st_inscription_id = ''7'',
                             st_details = Some (''Maison - 7 rue X'', ''http://b/7''), st_address = None,
                             st_city = None, st_img = Some ''b.jpg'', st_prix = Some ''310000''\<rparr>],
                         st_next_hidden = True, st_next = True\<rparr> [],
            minPrice = 100000, maxPrice = 500000,
            listings_json = [(''sutton-7'',
                              \<lparr>id' = ''sutton-7'', price = Num 325000, city = None, address = None,
                               description = Some ''Maison'', imageUrl = Some ''b.jpg'', url = ''http://b/7'',
                               dateScanned = ''2021-01-02'', source = ''Sutton''\<rparr>)]\<rparr>
           \<lparr>stdout = [], exitCode = 0,
            notifications = [],
            writes = []\<rparr>
         = listings_json
             \<lparr>today = \<lparr>getFullYear = 2021, getMonth = 0, getDate = 9\<rparr>,
              duproprio = Goto_fails,
              centris = Goto_fails,
              sutton = Goto_loads
                          \<lparr>st_items =
                             [\<lparr>st_vendu = False, st_inscription_id = ''7'',
                               st_details = Some (''Maison - 7 rue X'', ''http://b/7''), st_address = None,
                               st_city = None, st_img = Some ''b.jpg'', st_prix = Some ''310000''\<rparr>],
                           st_next_hidden = True, st_next = True\<rparr> [],
              minPrice = 100000, maxPrice = 500000,
              listings_json = [(''sutton-7'',
                                \<lparr>id' = ''sutton-7'', price = Num 325000, city = None, address = None,
                                 description = Some ''Maison'', imageUrl = Some ''b.jpg'', url = ''http://b/7'',
                                 dateScanned = ''2021-01-02'', source = ''Sutton''\<rparr>)]\<rparr>))"
proof -
  have dp: "scanDuproprioListings \<lparr>getFullYear = 2021, getMonth = 0, getDate = 9\<rparr> Goto_fails = Inr []"
    by code_simp
  have ct: "scanCentrisListings \<lparr>getFullYear = 2021, getMonth = 0, getDate = 9\<rparr> 100000 500000 Goto_fails = Some (Inr [])"
    by (simp add: scanCentrisListings_def)
  have st: "scanSuttonListings \<lparr>getFullYear = 2021, getMonth = 0, getDate = 9\<rparr>
      (Goto_loads
         \<lparr>st_items =
            [\<lparr>st_vendu = False, st_inscription_id = ''7'',
              st_details = Some (''Maison - 7 rue X'', ''http://b/7''), st_address = None,
              st_city = None, st_img = Some ''b.jpg'', st_prix = Some ''310000''\<rparr>],
          st_next_hidden = True, st_next = True\<rparr> [])
    = Inr [(''sutton-7'',
            \<lparr>id' = ''sutton-7'', price = Num 310000, city = None, address = None,
             description = Some ''Maison'', imageUrl = Some ''b.jpg'', url = ''http://b/7'',
             dateScanned = ''2021-01-09'', source = ''Sutton''\<rparr>)]"
    by code_simp
  have dpp: "duproprio_pending \<lparr>getFullYear = 2021, getMonth = 0, getDate = 9\<rparr>
      Goto_fails = []"
    by code_simp
  have stp: "sutton_pending \<lparr>getFullYear = 2021, getMonth = 0, getDate = 9\<rparr>
      (Goto_loads
         \<lparr>st_items =
            [\<lparr>st_vendu = False, st_inscription_id = ''7'',
              st_details = Some (''Maison - 7 rue X'', ''http://b/7''), st_address = None,
              st_city = None, st_img = Some ''b.jpg'', st_prix = Some ''310000''\<rparr>],
          st_next_hidden = True, st_next = True\<rparr> []) = []"
    by code_simp
  have rep: "report (Object_assign (Object_assign [] [])
      [(''sutton-7'',
        \<lparr>id' = ''sutton-7'', price = Num 310000, city = None, address = None,
         description = Some ''Maison'', imageUrl = Some ''b.jpg'', url = ''http://b/7'',
         dateScanned = ''2021-01-09'', source = ''Sutton''\<rparr>)])
      [(''sutton-7'',
        \<lparr>id' = ''sutton-7'', price = Num 325000, city = None, address = None,
         description = Some ''Maison'', imageUrl = Some ''b.jpg'', url = ''http://b/7'',
         dateScanned = ''2021-01-02'', source = ''Sutton''\<rparr>)]
    = \<lparr>stdout = [], exitCode = 0,
       notifications = [],
       writes = []\<rparr>"
    by code_simp
  have h: "main
     \<lparr>today = \<lparr>getFullYear = 2021, getMonth = 0, getDate = 9\<rparr>,
      duproprio = Goto_fails,
      centris = Goto_fails,
      sutton = Goto_loads
                  \<lparr>st_items =
                     [\<lparr>st_vendu = False, st_inscription_id = ''7'',
                       st_details = Some (''Maison - 7 rue X'', ''http://b/7''), st_address = None,
                       st_city = None, st_img = Some ''b.jpg'', st_prix = Some ''310000''\<rparr>],
                   st_next_hidden = True, st_next = True\<rparr> [],
      minPrice = 100000, maxPrice = 500000,
      listings_json = [(''sutton-7'',
                        \<lparr>id' = ''sutton-7'', price = Num 325000, city = None, address = None,
                         description = Some ''Maison'', imageUrl = Some ''b.jpg'', url = ''http://b/7'',
                         dateScanned = ''2021-01-02'', source = ''Sutton''\<rparr>)]\<rparr>
   = Some 
     \<lparr>stdout = [], exitCode = 0,
      notifications = [],
      writes = []\<rparr>"
    by (simp add: main_def scan_websites_def dp ct st rep
        unhandled_rejections_def dpp stp process_exit_def)
  from h notify_and_write_iff_new [OF h] show ?thesis by (rule conjI)
qed

section \<open>The result line\<close>

text \<open>
  C2. A run that succeeds: DuProprio and Centris show an empty last page, Sutton shows one
  listing, and nothing is persisted yet. The listing is notified and written, the process
  ends with code 0, and nothing is printed: the main function never calls
  \<^verbatim>\<open>endWithSuccess\<close>, so no \<^verbatim>\<open>{ success: true, message }\<close> reaches the console.
\<close>

theorem main_prints_no_success_json:
  "main
     \<lparr>today = \<lparr>getFullYear = 2021, getMonth = 0, getDate = 9\<rparr>,
      duproprio = Goto_loads \<lparr>dp_items = [], dp_active_last = True, dp_next = False\<rparr> [],
      centris = Goto_loads \<lparr>ct_items = [], ct_next_active = False\<rparr> [],
      sutton = Goto_loads
                  \<lparr>st_items =
                     [\<lparr>st_vendu = False, st_inscription_id = ''7'',
                       st_details = Some (''Maison - 7 rue X'', ''http://b/7''), st_address = None,
                       st_city = None, st_img = Some ''b.jpg'', st_prix = Some ''310000''\<rparr>],
                   st_next_hidden = True, st_next = True\<rparr> [],
      minPrice = 100000, maxPrice = 500000,
      listings_json = []\<rparr>
   = Some
     \<lparr>stdout = [], exitCode = 0,
      notifications = [[(''sutton-7'',
                         \<lparr>id' = ''sutton-7'', price = Num 310000, city = None, address = None,
                          description = Some ''Maison'', imageUrl = Some ''b.jpg'', url = ''http://b/7'',
                          dateScanned = ''2021-01-09'', source = ''Sutton''\<rparr>)]],
      writes = [[(''sutton-7'',
                  \<lparr>id' = ''sutton-7'', price = Num 310000, city = None, address = None,
                   description = Some ''Maison'', imageUrl = Some ''b.jpg'', url = ''http://b/7'',
                   dateScanned = ''2021-01-09'', source = ''Sutton''\<rparr>)]]\<rparr>"
proof -
  have dp: "scanDuproprioListings \<lparr>getFullYear = 2021, getMonth = 0, getDate = 9\<rparr>
      (Goto_loads \<lparr>dp_items = [], dp_active_last = True, dp_next = False\<rparr> []) = Inr []"
    by code_simp
  have ct: "scanCentrisListings \<lparr>getFullYear = 2021, getMonth = 0, getDate = 9\<rparr> 100000 500000
      (Goto_loads \<lparr>ct_items = [], ct_next_active = False\<rparr> []) = Some (Inr [])"
    by (simp add: scanCentrisListings_def centris_evaluate_def centris_while_inactive)
  have st: "scanSuttonListings \<lparr>getFullYear = 2021, getMonth = 0, getDate = 9\<rparr>
      (Goto_loads
         \<lparr>st_items =
            [\<lparr>st_vendu = False, st_inscription_id = ''7'',
              st_details = Some (''Maison - 7 rue X'', ''http://b/7''), st_address = None,
              st_city = None, st_img = Some ''b.jpg'', st_prix = Some ''310000''\<rparr>],
          st_next_hidden = True, st_next = True\<rparr> [])
    = Inr [(''sutton-7'',
            \<lparr>id' = ''sutton-7'', price = Num 310000, city = None, address = None,
             description = Some ''Maison'', imageUrl = Some ''b.jpg'', url = ''http://b/7'',
             dateScanned = ''2021-01-09'', source = ''Sutton''\<rparr>)]"
    by code_simp
  have dpp: "duproprio_pending \<lparr>getFullYear = 2021, getMonth = 0, getDate = 9\<rparr>
      (Goto_loads \<lparr>dp_items = [], dp_active_last = True, dp_next = False\<rparr> []) = []"
    by code_simp
  have stp: "sutton_pending \<lparr>getFullYear = 2021, getMonth = 0, getDate = 9\<rparr>
      (Goto_loads
         \<lparr>st_items =
            [\<lparr>st_vendu = False, st_inscription_id = ''7'',
              st_details = Some (''Maison - 7 rue X'', ''http://b/7''), st_address = None,
              st_city = None, st_img = Some ''b.jpg'', st_prix = Some ''310000''\<rparr>],
          st_next_hidden = True, st_next = True\<rparr> []) = []"
    by code_simp
  have rep: "report (Object_assign (Object_assign [] [])
      [(''sutton-7'',
        \<lparr>id' = ''sutton-7'', price = Num 310000, city = None, address = None,
         description = Some ''Maison'', imageUrl = Some ''b.jpg'', url = ''http://b/7'',
         dateScanned = ''2021-01-09'', source = ''Sutton''\<rparr>)]) []
    = \<lparr>stdout = [], exitCode = 0,
       notifications = [[(''sutton-7'',
                          \<lparr>id' = ''sutton-7'', price = Num 310000, city = None, address = None,
                           description = Some ''Maison'', imageUrl = Some ''b.jpg'', url = ''http://b/7'',
                           dateScanned = ''2021-01-09'', source = ''Sutton''\<rparr>)]],
       writes = [[(''sutton-7'',
                   \<lparr>id' = ''sutton-7'', price = Num 310000, city = None, address = None,
                    description = Some ''Maison'', imageUrl = Some ''b.jpg'', url = ''http://b/7'',
                    dateScanned = ''2021-01-09'', source = ''Sutton''\<rparr>)]]\<rparr>"
    by code_simp
  show ?thesis
    by (simp add: main_def scan_websites_def dp ct st rep
        unhandled_rejections_def dpp stp process_exit_def)
qed

section \<open>Where the entries of a scan come from\<close>

lemma set_update_subset: "set (AList.update k v al) \<subseteq> insert (k, v) (set al)"
  by (induction al) auto

lemma duproprio_for_from_nodes:
  assumes "(k, l) \<in> set (snd (duproprio_for t nodes acc))"
  shows "(k, l) \<in> set acc \<or>
         (\<exists>node \<in> set nodes. \<exists>s. dp_id node = Some s \<and> test_listing_digits s \<and>
            duproprio_evaluate node t = Inr l \<and>
            k = ''duproprio-'' @ str_of_undefined (at_index (split_char CHR ''-'' s) 1))"
  using assms
proof (induction nodes arbitrary: acc)
  case Nil
  then show ?case by simp
next
  case (Cons node nodes)
  show ?case
  proof (cases "test_listing_digits (str_of_null (dp_id node))")
    case False
    then show ?thesis using Cons.IH [of acc] Cons.prems by auto
  next
    case True
    show ?thesis
    proof (cases "dp_id node")
      case None
      then show ?thesis using True Cons.prems by simp
    next
      case (Some s)
      show ?thesis
      proof (cases "duproprio_evaluate node t")
        case (Inl e)
        then show ?thesis using True Some Cons.prems by simp
      next
        case (Inr l')
        let ?k = "''duproprio-'' @ str_of_undefined (at_index (split_char CHR ''-'' s) 1)"
        from Cons.prems True Some Inr
        have "(k, l) \<in> set (snd (duproprio_for t nodes (AList.update ?k l' acc)))"
          by (simp add: Let_def)
        from Cons.IH [OF this] show ?thesis
        proof
          assume "(k, l) \<in> set (AList.update ?k l' acc)"
          then have "(k, l) = (?k, l') \<or> (k, l) \<in> set acc"
            using set_update_subset [of ?k l' acc] by auto
          then show ?thesis using True Some Inr by (auto simp: str_of_null_def)
        next
          assume "\<exists>node\<in>set nodes. \<exists>s. dp_id node = Some s \<and> test_listing_digits s \<and>
            duproprio_evaluate node t = Inr l \<and>
            k = ''duproprio-'' @ str_of_undefined (at_index (split_char CHR ''-'' s) 1)"
          then show ?thesis by auto
        qed
      qed
    qed
  qed
qed

lemma duproprio_do_while_from_nodes:
  assumes "(k, l) \<in> set (fst (snd (snd (duproprio_do_while t p rest (n, acc)))))"
  shows "(k, l) \<in> set acc \<or>
         (\<exists>node \<in> set (concat (map duproprio_listingNodes (p # rest))). \<exists>s.
            dp_id node = Some s \<and> test_listing_digits s \<and>
            duproprio_evaluate node t = Inr l \<and>
            k = ''duproprio-'' @ str_of_undefined (at_index (split_char CHR ''-'' s) 1))"
  using assms
proof (induction rest arbitrary: p n acc)
  case Nil
  obtain e acc' where f: "duproprio_for t (duproprio_listingNodes p) acc = (e, acc')" by force
  with Nil have "(k, l) \<in> set acc'"
    by (auto simp: duproprio_do_while.simps Let_def split: option.splits if_splits)
  then show ?case using duproprio_for_from_nodes [of k l t "duproprio_listingNodes p" acc] f by auto
next
  case (Cons p' rest)
  obtain e acc' where f: "duproprio_for t (duproprio_listingNodes p) acc = (e, acc')" by force
  have step: "(k, l) \<in> set acc' \<Longrightarrow> ?case"
    using duproprio_for_from_nodes [of k l t "duproprio_listingNodes p" acc] f by auto
  show ?case
  proof (cases "e = None \<and> \<not> dp_active_last p \<and> dp_next p")
    case True
    with Cons.prems f
    have "(k, l) \<in> set (fst (snd (snd (duproprio_do_while t p' rest (n + 1, acc')))))"
      by (auto simp: duproprio_do_while.simps [of t p] Let_def)
    from Cons.IH [OF this] show ?thesis using step by auto
  next
    case False
    with Cons.prems f have "(k, l) \<in> set acc'"
      by (auto simp: duproprio_do_while.simps [of t p] Let_def split: option.splits if_splits)
    then show ?thesis by (rule step)
  qed
qed

lemma scanDuproprioListings_from_nodes:
  assumes "scanDuproprioListings d site = Inr ls" and "(k, l) \<in> set ls"
  shows "\<exists>node \<in> set (concat (map duproprio_listingNodes (pages site))). \<exists>s.
            dp_id node = Some s \<and> test_listing_digits s \<and>
            duproprio_evaluate node (formatDate d) = Inr l \<and>
            k = ''duproprio-'' @ str_of_undefined (at_index (split_char CHR ''-'' s) 1)"
proof (cases site)
  case Goto_fails
  then show ?thesis using assms by (simp add: scanDuproprioListings_def duproprio_try_def)
next
  case (Goto_loads p rest)
  with assms have "(k, l) \<in> set (fst (snd (snd (duproprio_do_while (formatDate d) p rest (1, [])))))"
    by (auto simp: scanDuproprioListings_def duproprio_try_def split: prod.splits)
  from duproprio_do_while_from_nodes [OF this] show ?thesis
    using Goto_loads by (simp add: pages_def)
qed

lemma set_Object_assign_subset: "set (Object_assign target src) \<subseteq> set target \<union> set src"
proof -
  have "set (fold (\<lambda>(k, v) t. AList.update k v t) src target) \<subseteq> set target \<union> set src"
  proof (induction src arbitrary: target)
    case Nil
    then show ?case by simp
  next
    case (Cons kv src)
    obtain k v where kv: "kv = (k, v)" by force
    show ?case using Cons.IH [of "AList.update k v target"] set_update_subset [of k v target]
      by (auto simp: kv)
  qed
  then show ?thesis by (simp add: Object_assign_def)
qed

lemma sutton_for_from_nodes:
  assumes "sutton_for t nodes acc = Inr ls" and "(k, l) \<in> set ls"
  shows "(k, l) \<in> set acc \<or>
         (\<exists>node \<in> set nodes. \<not> st_vendu node \<and> sutton_record node t = Inr l \<and>
            k = ''sutton-'' @ st_inscription_id node)"
  using assms
proof (induction nodes arbitrary: acc)
  case Nil
  then show ?case by simp
next
  case (Cons node nodes)
  show ?case
  proof (cases "st_vendu node")
    case True
    then show ?thesis using Cons.IH [of acc] Cons.prems by auto
  next
    case False
    show ?thesis
    proof (cases "sutton_record node t")
      case (Inl e)
      then show ?thesis using False Cons.prems by simp
    next
      case (Inr l')
      let ?k = "''sutton-'' @ st_inscription_id node"
      from Cons.prems False Inr
      have "sutton_for t nodes (AList.update ?k l' acc) = Inr ls" by simp
      from Cons.IH [OF this Cons.prems(2)] show ?thesis
      proof
        assume "(k, l) \<in> set (AList.update ?k l' acc)"
        then have "(k, l) = (?k, l') \<or> (k, l) \<in> set acc"
          using set_update_subset [of ?k l' acc] by auto
        then show ?thesis using False Inr by auto
      next
        assume "\<exists>node\<in>set nodes. \<not> st_vendu node \<and> sutton_record node t = Inr l \<and>
            k = ''sutton-'' @ st_inscription_id node"
        then show ?thesis by auto
      qed
    qed
  qed
qed

lemma sutton_step_from_nodes:
  assumes "sutton_evaluate p t = Inr pageListings"
    and "(k, l) \<in> set (Object_assign acc pageListings)"
  shows "(k, l) \<in> set acc \<or>
         (\<exists>node \<in> set (st_items p). \<exists>l0. \<not> st_vendu node \<and> sutton_record node t = Inr l0 \<and>
            l = by_value l0 \<and> k = ''sutton-'' @ st_inscription_id node)"
proof -
  from assms(1) obtain inPage where ip: "sutton_for t (st_items p) [] = Inr inPage"
    and pl: "pageListings = object_by_value inPage"
    by (auto simp: sutton_evaluate_def split: sum.splits)
  from assms(2) have "(k, l) \<in> set acc \<or> (k, l) \<in> set pageListings"
    using set_Object_assign_subset [of acc pageListings] by auto
  then show ?thesis
  proof
    assume "(k, l) \<in> set acc"
    then show ?thesis by simp
  next
    assume "(k, l) \<in> set pageListings"
    then obtain l0 where l0: "(k, l0) \<in> set inPage" "l = by_value l0"
      by (auto simp: pl set_object_by_value)
    from sutton_for_from_nodes [OF ip l0(1)] l0(2) show ?thesis by auto
  qed
qed

lemma sutton_do_while_from_nodes:
  assumes "(k, l) \<in> set (fst (snd (snd (sutton_do_while t p rest (n, acc)))))"
  shows "(k, l) \<in> set acc \<or>
         (\<exists>node \<in> set (concat (map st_items (p # rest))). \<exists>l0.
            \<not> st_vendu node \<and> sutton_record node t = Inr l0 \<and>
            l = by_value l0 \<and> k = ''sutton-'' @ st_inscription_id node)"
  using assms
proof (induction rest arbitrary: p n acc)
  case Nil
  show ?case
  proof (cases "sutton_evaluate p t")
    case (Inl e)
    then show ?thesis using Nil by (simp add: sutton_do_while.simps)
  next
    case (Inr pageListings)
    with Nil have "(k, l) \<in> set (Object_assign acc pageListings)"
      by (auto simp: sutton_do_while.simps Let_def split: if_splits)
    from sutton_step_from_nodes [OF Inr this] show ?thesis by auto
  qed
next
  case (Cons p' rest)
  show ?case
  proof (cases "sutton_evaluate p t")
    case (Inl e)
    then show ?thesis using Cons.prems by (simp add: sutton_do_while.simps)
  next
    case (Inr pageListings)
    have step: ?thesis if "(k, l) \<in> set (Object_assign acc pageListings)"
      using sutton_step_from_nodes [OF Inr that] by auto
    show ?thesis
    proof (cases "\<not> st_next_hidden p \<and> st_next p")
      case True
      with Cons.prems Inr
      have "(k, l) \<in> set (fst (snd (snd (sutton_do_while t p' rest (n + 1, Object_assign acc pageListings)))))"
        by (auto simp: sutton_do_while.simps [of t p] Let_def)
      from Cons.IH [OF this] show ?thesis using step by auto
    next
      case False
      with Cons.prems Inr have "(k, l) \<in> set (Object_assign acc pageListings)"
        by (auto simp: sutton_do_while.simps [of t p] Let_def split: if_splits)
      then show ?thesis by (rule step)
    qed
  qed
qed

lemma scanSuttonListings_from_nodes:
  assumes "scanSuttonListings d site = Inr ls" and "(k, l) \<in> set ls"
  shows "\<exists>node \<in> set (concat (map st_items (pages site))). \<exists>l0.
            \<not> st_vendu node \<and> sutton_record node (formatDate d) = Inr l0 \<and>
            l = by_value l0 \<and> k = ''sutton-'' @ st_inscription_id node"
proof (cases site)
  case Goto_fails
  then show ?thesis using assms by (simp add: scanSuttonListings_def sutton_try_def)
next
  case (Goto_loads p rest)
  with assms have "(k, l) \<in> set (fst (snd (snd (sutton_do_while (formatDate d) p rest (1, [])))))"
    by (auto simp: scanSuttonListings_def sutton_try_def split: prod.splits)
  from sutton_do_while_from_nodes [OF this] show ?thesis
    using Goto_loads by (simp add: pages_def)
qed

lemma centris_for_from_nodes:
  assumes "centris_for lo hi t nodes acc = Inr ls" and "(k, l) \<in> set ls"
  shows "(k, l) \<in> set acc \<or>
         (\<exists>node \<in> set nodes. centris_record lo hi t node = Inr (Some (k, l)))"
  using assms
proof (induction nodes arbitrary: acc)
  case Nil
  then show ?case by simp
next
  case (Cons node nodes)
  show ?case
  proof (cases "centris_record lo hi t node")
    case (Inl e)
    then show ?thesis using Cons.prems by simp
  next
    case (Inr r)
    show ?thesis
    proof (cases r)
      case None
      then show ?thesis using Inr Cons.IH [of acc] Cons.prems by auto
    next
      case (Some kl)
      obtain k' l' where kl: "kl = (k', l')" by force
      from Cons.prems Inr Some kl
      have "centris_for lo hi t nodes (AList.update k' l' acc) = Inr ls" by simp
      from Cons.IH [OF this Cons.prems(2)] show ?thesis
      proof
        assume "(k, l) \<in> set (AList.update k' l' acc)"
        then have "(k, l) = (k', l') \<or> (k, l) \<in> set acc"
          using set_update_subset [of k' l' acc] by auto
        then show ?thesis using Inr Some kl by auto
      next
        assume "\<exists>node\<in>set nodes. centris_record lo hi t node = Inr (Some (k, l))"
        then show ?thesis by auto
      qed
    qed
  qed
qed

lemma centris_click_pages: "set (fst (centris_click b) # snd (centris_click b)) \<subseteq> set (fst b # snd b)"
  by (cases b) (auto simp: centris_click_def split: list.splits)

lemma centris_while_from_nodes:
  assumes "centris_while lo hi t b st = Some y"
  shows "\<forall>n ls. y = Inr (n, ls) \<longrightarrow> (\<forall>(k, l) \<in> set ls. (k, l) \<in> set (snd st) \<or>
         (\<exists>node \<in> set (concat (map ct_items (fst b # snd b))).
            centris_record lo hi t node = Inr (Some (k, l))))"
proof (rule centris_while.raw_induct [where P = "\<lambda>lo hi t b st y.
         \<forall>n ls. y = Inr (n, ls) \<longrightarrow> (\<forall>(k, l) \<in> set ls. (k, l) \<in> set (snd st) \<or>
         (\<exists>node \<in> set (concat (map ct_items (fst b # snd b))).
            centris_record lo hi t node = Inr (Some (k, l))))", OF _ assms])
  fix cw :: "int \<Rightarrow> int \<Rightarrow> string \<Rightarrow> centris_page \<times> centris_page list \<Rightarrow> nat \<times> listings
      \<Rightarrow> (error + nat \<times> listings) option"
    and lo hi t b and st :: "nat \<times> listings" and y :: "error + nat \<times> listings"
  assume IH: "\<And>lo hi t b st y. cw lo hi t b st = Some y \<Longrightarrow>
         \<forall>n ls. y = Inr (n, ls) \<longrightarrow> (\<forall>(k, l) \<in> set ls. (k, l) \<in> set (snd st) \<or>
         (\<exists>node \<in> set (concat (map ct_items (fst b # snd b))).
            centris_record lo hi t node = Inr (Some (k, l))))"
    and eq: "(if \<not> ct_next_active (fst b) then Some (Inr st)
      else let b' = if 1 < fst st then centris_click b else b
           in case centris_for lo hi t (ct_items (fst b')) (snd st) of
              Inl e \<Rightarrow> Some (Inl e)
              | Inr listings' \<Rightarrow> cw lo hi t b' (fst st + 1, listings')) = Some y"
  show "\<forall>n ls. y = Inr (n, ls) \<longrightarrow> (\<forall>(k, l) \<in> set ls. (k, l) \<in> set (snd st) \<or>
         (\<exists>node \<in> set (concat (map ct_items (fst b # snd b))).
            centris_record lo hi t node = Inr (Some (k, l))))"
  proof (cases "ct_next_active (fst b)")
    case False
    with eq have "y = Inr st" by simp
    then show ?thesis by auto
  next
    case True
    define b' where "b' = (if 1 < fst st then centris_click b else b)"
    have sub: "set (fst b' # snd b') \<subseteq> set (fst b # snd b)"
      using centris_click_pages [of b] by (auto simp: b'_def)
    show ?thesis
    proof (cases "centris_for lo hi t (ct_items (fst b')) (snd st)")
      case (Inl e)
      with eq True have "y = Inl e" by (simp add: b'_def Let_def)
      then show ?thesis by simp
    next
      case (Inr listings')
      with eq True have rec: "cw lo hi t b' (fst st + 1, listings') = Some y"
        by (simp add: b'_def Let_def)
      show ?thesis
      proof (intro allI impI)
        fix n ls
        assume y: "y = Inr (n, ls)"
        show "\<forall>(k, l) \<in> set ls. (k, l) \<in> set (snd st) \<or>
          (\<exists>node \<in> set (concat (map ct_items (fst b # snd b))).
            centris_record lo hi t node = Inr (Some (k, l)))"
        proof (clarify)
          fix k l
          assume kl: "(k, l) \<in> set ls"
            and no: "\<not> (\<exists>node \<in> set (concat (map ct_items (fst b # snd b))).
            centris_record lo hi t node = Inr (Some (k, l)))"
          from IH [OF rec] y kl
          have "(k, l) \<in> set listings' \<or>
            (\<exists>node \<in> set (concat (map ct_items (fst b' # snd b'))).
               centris_record lo hi t node = Inr (Some (k, l)))"
            by auto
          moreover have "set (concat (map ct_items (fst b' # snd b')))
              \<subseteq> set (concat (map ct_items (fst b # snd b)))"
            using sub by auto
          ultimately have "(k, l) \<in> set listings'" using no by blast
          from centris_for_from_nodes [OF Inr this] have
            "(k, l) \<in> set (snd st) \<or> (\<exists>node\<in>set (ct_items (fst b')). centris_record lo hi t node = Inr (Some (k, l)))" .
          moreover have "set (ct_items (fst b')) \<subseteq> set (concat (map ct_items (fst b # snd b)))"
            using sub by auto
          ultimately show "(k, l) \<in> set (snd st)" using no by blast
        qed
      qed
    qed
  qed
qed

lemma scanCentrisListings_from_nodes:
  assumes "scanCentrisListings d lo hi site = Some (Inr ls)" and "(k, l) \<in> set ls"
  shows "\<exists>node \<in> set (concat (map ct_items (pages site))). \<exists>l0.
           centris_record lo hi (formatDate d) node = Inr (Some (k, l0)) \<and> l = by_value l0"
proof (cases site)
  case Goto_fails
  then show ?thesis using assms by (simp add: scanCentrisListings_def)
next
  case (Goto_loads p rest)
  with assms obtain n inPage where
    w: "centris_while lo hi (formatDate d) (p, rest) (1, []) = Some (Inr (n, inPage))" and
    ls: "ls = object_by_value inPage"
    by (auto simp: scanCentrisListings_def centris_evaluate_def
        split: option.splits sum.splits prod.splits)
  from assms(2) obtain l0 where l0: "(k, l0) \<in> set inPage" "l = by_value l0"
    by (auto simp: ls set_object_by_value)
  from centris_while_from_nodes [OF w] l0(1) have
    "\<exists>node \<in> set (concat (map ct_items (pages site))).
       centris_record lo hi (formatDate d) node = Inr (Some (k, l0))"
    using Goto_loads by (fastforce simp: pages_def)
  with l0(2) show ?thesis by blast
qed

lemma duproprio_evaluate_Inr:
  assumes "duproprio_evaluate node t = Inr l"
  shows "\<exists>priceText src href.
           dp_price node = Some priceText \<and> dp_img node = Some src \<and> dp_link node = Some href \<and>
           id' l = ''duproprio-'' @ str_of_undefined (at_index (split_char CHR ''-'' (node_id node)) 1) \<and>
           price l = number_by_value (parseInt (keep_digits priceText)) \<and>
           imageUrl l = src \<and> url l = href"
  using assms
  by (auto simp: duproprio_evaluate_def duproprio_in_page_def split: option.splits sum.splits)

lemma sutton_record_Inr:
  assumes "sutton_record node t = Inr l"
  shows "\<exists>src text href.
           st_img node = Some src \<and> st_details node = Some (text, href) \<and>
           id' l = ''sutton-'' @ st_inscription_id node \<and>
           price l = parseInt (str_of_null (st_prix node)) \<and> imageUrl l = Some src \<and> url l = href"
  using assms by (auto simp: sutton_record_def Let_def split: option.splits)

lemma centris_record_Inr:
  assumes "centris_record lo hi t node = Inr (Some (k, l))"
  shows "\<exists>mls href src content.
           ct_details node = Some (mls, href) \<and> ct_img node = Some src \<and>
           ct_price node = Some content \<and>
           k = ''centris-'' @ str_of_null mls \<and> id' l = k \<and>
           price l = parseInt (str_of_null content) \<and>
           imageUrl l = Some (replace_size src) \<and> url l = href"
  using assms by (auto simp: centris_record_def Let_def split: option.splits if_splits)

lemma listingNodes_subset: "set (duproprio_listingNodes p) \<subseteq> set (dp_items p)"
  by (auto simp: duproprio_listingNodes_def)

text \<open>
  C3, as the code has it. Every entry of a scanner's result was built from an element of
  one of the pages on which each node the scanner reads was found (price node, image and
  link for DuProprio; photo and details link for Sutton; details link, image and price
  node for Centris), and is stored under its own id: an element that lacks one of them
  raises and leaves no entry. The text read is not checked: the price of the entry is
  whatever \<^verbatim>\<open>parseInt\<close> makes of it, passed by value out of the page, so that
  \<^verbatim>\<open>NaN\<close> arrives as \<^verbatim>\<open>null\<close>.
\<close>

theorem emitted_listings_come_from_complete_items:
  "(scanDuproprioListings d s1 = Inr dp \<and> (k1, l1) \<in> set dp \<longrightarrow>
      (\<exists>node \<in> set (concat (map dp_items (pages s1))). \<exists>priceText src href.
          dp_price node = Some priceText \<and> dp_img node = Some src \<and> dp_link node = Some href \<and>
          id' l1 = k1 \<and> price l1 = number_by_value (parseInt (keep_digits priceText)) \<and>
          imageUrl l1 = src \<and> url l1 = href)) \<and>
   (scanSuttonListings d s3 = Inr st \<and> (k3, l3) \<in> set st \<longrightarrow>
      (\<exists>node \<in> set (concat (map st_items (pages s3))). \<exists>src text href.
          st_img node = Some src \<and> st_details node = Some (text, href) \<and>
          id' l3 = k3 \<and> price l3 = number_by_value (parseInt (str_of_null (st_prix node))) \<and>
          imageUrl l3 = Some src \<and> url l3 = href)) \<and>
   (scanCentrisListings d lo hi s2 = Some (Inr ct) \<and> (k2, l2) \<in> set ct \<longrightarrow>
      (\<exists>node \<in> set (concat (map ct_items (pages s2))). \<exists>mls href src content.
          ct_details node = Some (mls, href) \<and> ct_img node = Some src \<and>
          ct_price node = Some content \<and>
          id' l2 = k2 \<and> price l2 = number_by_value (parseInt (str_of_null content)) \<and>
          imageUrl l2 = Some (replace_size src) \<and> url l2 = href))"
proof (intro conjI impI)
  assume "scanDuproprioListings d s1 = Inr dp \<and> (k1, l1) \<in> set dp"
  then obtain node s where n: "node \<in> set (concat (map duproprio_listingNodes (pages s1)))"
    and s: "dp_id node = Some s" and e: "duproprio_evaluate node (formatDate d) = Inr l1"
    and k: "k1 = ''duproprio-'' @ str_of_undefined (at_index (split_char CHR ''-'' s) 1)"
    using scanDuproprioListings_from_nodes [of d s1 dp k1 l1] by blast
  from n have n': "node \<in> set (concat (map dp_items (pages s1)))"
    using listingNodes_subset by fastforce
  from duproprio_evaluate_Inr [OF e] s k have "\<exists>priceText src href.
          dp_price node = Some priceText \<and> dp_img node = Some src \<and> dp_link node = Some href \<and>
          id' l1 = k1 \<and> price l1 = number_by_value (parseInt (keep_digits priceText)) \<and>
          imageUrl l1 = src \<and> url l1 = href"
    by (auto simp: node_id_def)
  with n' show "\<exists>node \<in> set (concat (map dp_items (pages s1))). \<exists>priceText src href.
          dp_price node = Some priceText \<and> dp_img node = Some src \<and> dp_link node = Some href \<and>
          id' l1 = k1 \<and> price l1 = number_by_value (parseInt (keep_digits priceText)) \<and>
          imageUrl l1 = src \<and> url l1 = href" by blast
next
  assume "scanSuttonListings d s3 = Inr st \<and> (k3, l3) \<in> set st"
  then obtain node l0 where n: "node \<in> set (concat (map st_items (pages s3)))"
    and e: "sutton_record node (formatDate d) = Inr l0" and v: "l3 = by_value l0"
    and k: "k3 = ''sutton-'' @ st_inscription_id node"
    using scanSuttonListings_from_nodes [of d s3 st k3 l3] by blast
  from sutton_record_Inr [OF e] k v have "\<exists>src text href.
          st_img node = Some src \<and> st_details node = Some (text, href) \<and>
          id' l3 = k3 \<and> price l3 = number_by_value (parseInt (str_of_null (st_prix node))) \<and>
          imageUrl l3 = Some src \<and> url l3 = href" by auto
  with n show "\<exists>node \<in> set (concat (map st_items (pages s3))). \<exists>src text href.
          st_img node = Some src \<and> st_details node = Some (text, href) \<and>
          id' l3 = k3 \<and> price l3 = number_by_value (parseInt (str_of_null (st_prix node))) \<and>
          imageUrl l3 = Some src \<and> url l3 = href" by blast
next
  assume "scanCentrisListings d lo hi s2 = Some (Inr ct) \<and> (k2, l2) \<in> set ct"
  then obtain node l0 where n: "node \<in> set (concat (map ct_items (pages s2)))"
    and e: "centris_record lo hi (formatDate d) node = Inr (Some (k2, l0))" and v: "l2 = by_value l0"
    using scanCentrisListings_from_nodes [of d lo hi s2 ct k2 l2] by blast
  from centris_record_Inr [OF e] v have "\<exists>mls href src content.
          ct_details node = Some (mls, href) \<and> ct_img node = Some src \<and>
          ct_price node = Some content \<and>
          id' l2 = k2 \<and> price l2 = number_by_value (parseInt (str_of_null content)) \<and>
          imageUrl l2 = Some (replace_size src) \<and> url l2 = href" by auto
  with n show "\<exists>node \<in> set (concat (map ct_items (pages s2))). \<exists>mls href src content.
          ct_details node = Some (mls, href) \<and> ct_img node = Some src \<and>
          ct_price node = Some content \<and>
          id' l2 = k2 \<and> price l2 = number_by_value (parseInt (str_of_null content)) \<and>
          imageUrl l2 = Some (replace_size src) \<and> url l2 = href" by blast
qed

text \<open>
  C3, witness: one element on each site. The DuProprio one has the unparseable price of
  the counterexample; its entry still comes from an element with all its nodes.
\<close>

theorem emitted_listings_come_from_complete_items_witness:
  "scanDuproprioListings \<lparr>getFullYear = 2021, getMonth = 0, getDate = 9\<rparr>
     (Goto_loads
        \<lparr>dp_items =
           [\<lparr>dp_sold = False, dp_id = Some ''listing-1'',
             dp_price = Some ''Prix sur demande'', dp_city = Some ''Montreal'', dp_address = None,
             dp_description = None, dp_img = Some (Some ''a.jpg''), dp_link = Some ''http://a/1''\<rparr>],
         dp_active_last = True, dp_next = False\<rparr> [])
   = Inr [(''duproprio-1'',
           \<lparr>id' = ''duproprio-1'', price = Null, city = Some ''Montreal'', address = None,
            description = None, imageUrl = Some ''a.jpg'', url = ''http://a/1'',
            dateScanned = ''2021-01-09'', source = ''DuProprio''\<rparr>)] \<and>
   scanSuttonListings \<lparr>getFullYear = 2021, getMonth = 0, getDate = 9\<rparr>
     (Goto_loads
        \<lparr>st_items =
           [\<lparr>st_vendu = False, st_inscription_id = ''7'',
             st_details = Some (''Maison - 7 rue X'', ''http://b/7''), st_address = None,
             st_city = None, st_img = Some ''b.jpg'', st_prix = Some ''310000''\<rparr>],
         st_next_hidden = True, st_next = True\<rparr> [])
   = Inr [(''sutton-7'',
           \<lparr>id' = ''sutton-7'', price = Num 310000, city = None, address = None,
            description = Some ''Maison'', imageUrl = Some ''b.jpg'', url = ''http://b/7'',
            dateScanned = ''2021-01-09'', source = ''Sutton''\<rparr>)] \<and>
   scanCentrisListings \<lparr>getFullYear = 2021, getMonth = 0, getDate = 9\<rparr> 100000 500000
     (Goto_loads
        \<lparr>ct_items =
           [\<lparr>ct_sold = False, ct_details = Some (Some ''123'', ''http://c/123''),
             ct_address = Some ''1 rue A'', ct_city = Some ''Laval'',
             ct_img = Some ''http://c/i?id=1&w=320&h=240&sm=c'', ct_price = Some (Some ''250000'')\<rparr>],
         ct_next_active = True\<rparr>
        [\<lparr>ct_items = [], ct_next_active = False\<rparr>])
   = Some (Inr [(''centris-123'',
                 \<lparr>id' = ''centris-123'', price = Num 250000, city = Some ''Laval'',
                  address = Some ''1 rue A'', description = Some [],
                  imageUrl = Some ''http://c/i?id=1&w=640&h=480&sm=c'', url = ''http://c/123'',
                  dateScanned = ''2021-01-09'', source = ''Centris''\<rparr>)]) \<and>
   (\<exists>node \<in> set (concat (map dp_items (pages
           (Goto_loads
              \<lparr>dp_items =
                 [\<lparr>dp_sold = False, dp_id = Some ''listing-1'',
                   dp_price = Some ''Prix sur demande'', dp_city = Some ''Montreal'', dp_address = None,
                   dp_description = None, dp_img = Some (Some ''a.jpg''), dp_link = Some ''http://a/1''\<rparr>],
               dp_active_last = True, dp_next = False\<rparr> [])))).
         \<exists>priceText src href.
           dp_price node = Some priceText \<and> dp_img node = Some src \<and> dp_link node = Some href \<and>
           id' 
             \<lparr>id' = ''duproprio-1'', price = Null, city = Some ''Montreal'', address = None,
              description = None, imageUrl = Some ''a.jpg'', url = ''http://a/1'',
              dateScanned = ''2021-01-09'', source = ''DuProprio''\<rparr> = ''duproprio-1'' \<and>
           price 
             \<lparr>id' = ''duproprio-1'', price = Null, city = Some ''Montreal'', address = None,
              description = None, imageUrl = Some ''a.jpg'', url = ''http://a/1'',
              dateScanned = ''2021-01-09'', source = ''DuProprio''\<rparr> = number_by_value (parseInt (keep_digits priceText)) \<and>
           imageUrl 
             \<lparr>id' = ''duproprio-1'', price = Null, city = Some ''Montreal'', address = None,
              description = None, imageUrl = Some ''a.jpg'', url = ''http://a/1'',
              dateScanned = ''2021-01-09'', source = ''DuProprio''\<rparr> = src \<and>
           url 
             \<lparr>id' = ''duproprio-1'', price = Null, city = Some ''Montreal'', address = None,
              description = None, imageUrl = Some ''a.jpg'', url = ''http://a/1'',
              dateScanned = ''2021-01-09'', source = ''DuProprio''\<rparr> = href) \<and>
   (\<exists>node \<in> set (concat (map st_items (pages
           (Goto_loads
              \<lparr>st_items =
                 [\<lparr>st_vendu = False, st_inscription_id = ''7'',
                   st_details = Some (''Maison - 7 rue X'', ''http://b/7''), st_address = None,
                   st_city = None, st_img = Some ''b.jpg'', st_prix = Some ''310000''\<rparr>],
               st_next_hidden = True, st_next = True\<rparr> [])))).
         \<exists>src text href.
           st_img node = Some src \<and> st_details node = Some (text, href) \<and>
           id' 
             \<lparr>id' = ''sutton-7'', price = Num 310000, city = None, address = None,
              description = Some ''Maison'', imageUrl = Some ''b.jpg'', url = ''http://b/7'',
              dateScanned = ''2021-01-09'', source = ''Sutton''\<rparr> = ''sutton-7'' \<and>
           price 
             \<lparr>id' = ''sutton-7'', price = Num 310000, city = None, address = None,
              description = Some ''Maison'', imageUrl = Some ''b.jpg'', url = ''http://b/7'',
              dateScanned = ''2021-01-09'', source = ''Sutton''\<rparr> = number_by_value (parseInt (str_of_null (st_prix node))) \<and>
           imageUrl 
             \<lparr>id' = ''sutton-7'', price = Num 310000, city = None, address = None,
              description = Some ''Maison'', imageUrl = Some ''b.jpg'', url = ''http://b/7'',
              dateScanned = ''2021-01-09'', source = ''Sutton''\<rparr> = Some src \<and>
           url 
             \<lparr>id' = ''sutton-7'', price = Num 310000, city = None, address = None,
              description = Some ''Maison'', imageUrl = Some ''b.jpg'', url = ''http://b/7'',
              dateScanned = ''2021-01-09'', source = ''Sutton''\<rparr> = href) \<and>
   (\<exists>node \<in> set (concat (map ct_items (pages
           (Goto_loads
              \<lparr>ct_items =
                 [\<lparr>ct_sold = False, ct_details = Some (Some ''123'', ''http://c/123''),
                   ct_address = Some ''1 rue A'', ct_city = Some ''Laval'',
                   ct_img = Some ''http://c/i?id=1&w=320&h=240&sm=c'', ct_price = Some (Some ''250000'')\<rparr>],
               ct_next_active = True\<rparr>
              [\<lparr>ct_items = [], ct_next_active = False\<rparr>])))).
         \<exists>mls href src content.
           ct_details node = Some (mls, href) \<and> ct_img node = Some src \<and>
           ct_price node = Some content \<and>
           id' 
             \<lparr>id' = ''centris-123'', price = Num 250000, city = Some ''Laval'',
              address = Some ''1 rue A'', description = Some [],
              imageUrl = Some ''http://c/i?id=1&w=640&h=480&sm=c'', url = ''http://c/123'',
              dateScanned = ''2021-01-09'', source = ''Centris''\<rparr> = ''centris-123'' \<and>
           price 
             \<lparr>id' = ''centris-123'', price = Num 250000, city = Some ''Laval'',
              address = Some ''1 rue A'', description = Some [],
              imageUrl = Some ''http://c/i?id=1&w=640&h=480&sm=c'', url = ''http://c/123'',
              dateScanned = ''2021-01-09'', source = ''Centris''\<rparr> = number_by_value (parseInt (str_of_null content)) \<and>
           imageUrl 
             \<lparr>id' = ''centris-123'', price = Num 250000, city = Some ''Laval'',
              address = Some ''1 rue A'', description = Some [],
              imageUrl = Some ''http://c/i?id=1&w=640&h=480&sm=c'', url = ''http://c/123'',
              dateScanned = ''2021-01-09'', source = ''Centris''\<rparr> = Some (replace_size src) \<and>
           url 
             \<lparr>id' = ''centris-123'', price = Num 250000, city = Some ''Laval'',
              address = Some ''1 rue A'', description = Some [],
              imageUrl = Some ''http://c/i?id=1&w=640&h=480&sm=c'', url = ''http://c/123'',
              dateScanned = ''2021-01-09'', source = ''Centris''\<rparr> = href)"
proof -
  have date: "formatDate \<lparr>getFullYear = 2021, getMonth = 0, getDate = 9\<rparr> = ''2021-01-09''"
    by code_simp
  have dp: "scanDuproprioListings \<lparr>getFullYear = 2021, getMonth = 0, getDate = 9\<rparr>
      (Goto_loads
         \<lparr>dp_items =
            [\<lparr>dp_sold = False, dp_id = Some ''listing-1'',
              dp_price = Some ''Prix sur demande'', dp_city = Some ''Montreal'', dp_address = None,
              dp_description = None, dp_img = Some (Some ''a.jpg''), dp_link = Some ''http://a/1''\<rparr>],
          dp_active_last = True, dp_next = False\<rparr> [])
    = Inr [(''duproprio-1'',
            \<lparr>id' = ''duproprio-1'', price = Null, city = Some ''Montreal'', address = None,
             description = None, imageUrl = Some ''a.jpg'', url = ''http://a/1'',
             dateScanned = ''2021-01-09'', source = ''DuProprio''\<rparr>)]"
    by code_simp
  have st: "scanSuttonListings \<lparr>getFullYear = 2021, getMonth = 0, getDate = 9\<rparr>
      (Goto_loads
         \<lparr>st_items =
            [\<lparr>st_vendu = False, st_inscription_id = ''7'',
              st_details = Some (''Maison - 7 rue X'', ''http://b/7''), st_address = None,
              st_city = None, st_img = Some ''b.jpg'', st_prix = Some ''310000''\<rparr>],
          st_next_hidden = True, st_next = True\<rparr> [])
    = Inr [(''sutton-7'',
            \<lparr>id' = ''sutton-7'', price = Num 310000, city = None, address = None,
             description = Some ''Maison'', imageUrl = Some ''b.jpg'', url = ''http://b/7'',
             dateScanned = ''2021-01-09'', source = ''Sutton''\<rparr>)]"
    by code_simp
  have page1: "centris_for 100000 500000 ''2021-01-09''
      (ct_items
         \<lparr>ct_items =
            [\<lparr>ct_sold = False, ct_details = Some (Some ''123'', ''http://c/123''),
              ct_address = Some ''1 rue A'', ct_city = Some ''Laval'',
              ct_img = Some ''http://c/i?id=1&w=320&h=240&sm=c'', ct_price = Some (Some ''250000'')\<rparr>],
          ct_next_active = True\<rparr>) []
    = Inr [(''centris-123'',
            \<lparr>id' = ''centris-123'', price = Num 250000, city = Some ''Laval'',
             address = Some ''1 rue A'', description = Some [],
             imageUrl = Some ''http://c/i?id=1&w=640&h=480&sm=c'', url = ''http://c/123'',
             dateScanned = ''2021-01-09'', source = ''Centris''\<rparr>)]"
    by code_simp
  have page2: "centris_for 100000 500000 ''2021-01-09'' (ct_items \<lparr>ct_items = [], ct_next_active = False\<rparr>) ls = Inr ls" for ls
    by simp
  have ct: "scanCentrisListings \<lparr>getFullYear = 2021, getMonth = 0, getDate = 9\<rparr> 100000 500000
      (Goto_loads
         \<lparr>ct_items =
            [\<lparr>ct_sold = False, ct_details = Some (Some ''123'', ''http://c/123''),
              ct_address = Some ''1 rue A'', ct_city = Some ''Laval'',
              ct_img = Some ''http://c/i?id=1&w=320&h=240&sm=c'', ct_price = Some (Some ''250000'')\<rparr>],
          ct_next_active = True\<rparr>
         [\<lparr>ct_items = [], ct_next_active = False\<rparr>])
    = Some (Inr [(''centris-123'',
                 \<lparr>id' = ''centris-123'', price = Num 250000, city = Some ''Laval'',
                  address = Some ''1 rue A'', description = Some [],
                  imageUrl = Some ''http://c/i?id=1&w=640&h=480&sm=c'', url = ''http://c/123'',
                  dateScanned = ''2021-01-09'', source = ''Centris''\<rparr>)])"
    unfolding scanCentrisListings_def centris_evaluate_def date Let_def visit.case
    by (simp only: centris_while_first [OF _ page1] centris_while_click [OF _ _ page2]
          centris_page.simps fst_conv)
       (simp add: centris_while_inactive object_by_value_def by_value_def number_by_value_def)
  have dp_in: "(''duproprio-1'',
                \<lparr>id' = ''duproprio-1'', price = Null, city = Some ''Montreal'', address = None,
                 description = None, imageUrl = Some ''a.jpg'', url = ''http://a/1'',
                 dateScanned = ''2021-01-09'', source = ''DuProprio''\<rparr>)
      \<in> set [(''duproprio-1'',
              \<lparr>id' = ''duproprio-1'', price = Null, city = Some ''Montreal'', address = None,
               description = None, imageUrl = Some ''a.jpg'', url = ''http://a/1'',
               dateScanned = ''2021-01-09'', source = ''DuProprio''\<rparr>)]"
    by simp
  have st_in: "(''sutton-7'',
                \<lparr>id' = ''sutton-7'', price = Num 310000, city = None, address = None,
                 description = Some ''Maison'', imageUrl = Some ''b.jpg'', url = ''http://b/7'',
                 dateScanned = ''2021-01-09'', source = ''Sutton''\<rparr>)
      \<in> set [(''sutton-7'',
              \<lparr>id' = ''sutton-7'', price = Num 310000, city = None, address = None,
               description = Some ''Maison'', imageUrl = Some ''b.jpg'', url = ''http://b/7'',
               dateScanned = ''2021-01-09'', source = ''Sutton''\<rparr>)]"
    by simp
  have ct_in: "(''centris-123'',
                \<lparr>id' = ''centris-123'', price = Num 250000, city = Some ''Laval'',
                 address = Some ''1 rue A'', description = Some [],
                 imageUrl = Some ''http://c/i?id=1&w=640&h=480&sm=c'', url = ''http://c/123'',
                 dateScanned = ''2021-01-09'', source = ''Centris''\<rparr>)
      \<in> set [(''centris-123'',
              \<lparr>id' = ''centris-123'', price = Num 250000, city = Some ''Laval'',
               address = Some ''1 rue A'', description = Some [],
               imageUrl = Some ''http://c/i?id=1&w=640&h=480&sm=c'', url = ''http://c/123'',
               dateScanned = ''2021-01-09'', source = ''Centris''\<rparr>)]"
    by simp
  from emitted_listings_come_from_complete_items
    [where d = "\<lparr>getFullYear = 2021, getMonth = 0, getDate = 9\<rparr>"
       and ?s1.0 = "Goto_loads
                        \<lparr>dp_items =
                           [\<lparr>dp_sold = False, dp_id = Some ''listing-1'',
                             dp_price = Some ''Prix sur demande'', dp_city = Some ''Montreal'', dp_address = None,
                             dp_description = None, dp_img = Some (Some ''a.jpg''), dp_link = Some ''http://a/1''\<rparr>],
                         dp_active_last = True, dp_next = False\<rparr> []"
       and dp = "[(''duproprio-1'',
                   \<lparr>id' = ''duproprio-1'', price = Null, city = Some ''Montreal'', address = None,
                    description = None, imageUrl = Some ''a.jpg'', url = ''http://a/1'',
                    dateScanned = ''2021-01-09'', source = ''DuProprio''\<rparr>)]"
       and ?k1.0 = "''duproprio-1''"
       and ?l1.0 = "\<lparr>id' = ''duproprio-1'', price = Null, city = Some ''Montreal'', address = None,
                      description = None, imageUrl = Some ''a.jpg'', url = ''http://a/1'',
                      dateScanned = ''2021-01-09'', source = ''DuProprio''\<rparr>"
       and ?s3.0 = "Goto_loads
                        \<lparr>st_items =
                           [\<lparr>st_vendu = False, st_inscription_id = ''7'',
                             st_details = Some (''Maison - 7 rue X'', ''http://b/7''), st_address = None,
                             st_city = None, st_img = Some ''b.jpg'', st_prix = Some ''310000''\<rparr>],
                         st_next_hidden = True, st_next = True\<rparr> []"
       and st = "[(''sutton-7'',
                   \<lparr>id' = ''sutton-7'', price = Num 310000, city = None, address = None,
                    description = Some ''Maison'', imageUrl = Some ''b.jpg'', url = ''http://b/7'',
                    dateScanned = ''2021-01-09'', source = ''Sutton''\<rparr>)]"
       and ?k3.0 = "''sutton-7''"
       and ?l3.0 = "\<lparr>id' = ''sutton-7'', price = Num 310000, city = None, address = None,
                      description = Some ''Maison'', imageUrl = Some ''b.jpg'', url = ''http://b/7'',
                      dateScanned = ''2021-01-09'', source = ''Sutton''\<rparr>"
       and lo = 100000 and hi = 500000
       and ?s2.0 = "Goto_loads
                        \<lparr>ct_items =
                           [\<lparr>ct_sold = False, ct_details = Some (Some ''123'', ''http://c/123''),
                             ct_address = Some ''1 rue A'', ct_city = Some ''Laval'',
                             ct_img = Some ''http://c/i?id=1&w=320&h=240&sm=c'', ct_price = Some (Some ''250000'')\<rparr>],
                         ct_next_active = True\<rparr>
                        [\<lparr>ct_items = [], ct_next_active = False\<rparr>]"
       and ct = "[(''centris-123'',
                   \<lparr>id' = ''centris-123'', price = Num 250000, city = Some ''Laval'',
                    address = Some ''1 rue A'', description = Some [],
                    imageUrl = Some ''http://c/i?id=1&w=640&h=480&sm=c'', url = ''http://c/123'',
                    dateScanned = ''2021-01-09'', source = ''Centris''\<rparr>)]"
       and ?k2.0 = "''centris-123''"
       and ?l2.0 = "\<lparr>id' = ''centris-123'', price = Num 250000, city = Some ''Laval'',
                      address = Some ''1 rue A'', description = Some [],
                      imageUrl = Some ''http://c/i?id=1&w=640&h=480&sm=c'', url = ''http://c/123'',
                      dateScanned = ''2021-01-09'', source = ''Centris''\<rparr>"]
    dp st ct dp_in st_in ct_in
  show ?thesis by blast
qed

text \<open>
  C3 as stated fails: a DuProprio element whose price text holds no digit is not skipped.
  Its listing is in the result; its price, \<^verbatim>\<open>NaN\<close> in the page, is \<^verbatim>\<open>null\<close> in the
  result.
\<close>

theorem unparseable_price_counterexample:
  "scanDuproprioListings \<lparr>getFullYear = 2021, getMonth = 0, getDate = 9\<rparr>
     (Goto_loads
        \<lparr>dp_items =
           [\<lparr>dp_sold = False, dp_id = Some ''listing-1'',
             dp_price = Some ''Prix sur demande'', dp_city = Some ''Montreal'', dp_address = None,
             dp_description = None, dp_img = Some (Some ''a.jpg''), dp_link = Some ''http://a/1''\<rparr>],
         dp_active_last = True, dp_next = False\<rparr> [])
   = Inr [(''duproprio-1'',
           \<lparr>id' = ''duproprio-1'', price = Null, city = Some ''Montreal'', address = None,
            description = None, imageUrl = Some ''a.jpg'', url = ''http://a/1'',
            dateScanned = ''2021-01-09'', source = ''DuProprio''\<rparr>)]"
  by code_simp

lemma duproprio_keys:
  assumes "scanDuproprioListings d s = Inr ls" and "(k, l) \<in> set ls"
  shows "id' l = k \<and> (\<exists>native. k = ''duproprio-'' @ native)"
proof -
  from scanDuproprioListings_from_nodes [OF assms] obtain node s' where
    "dp_id node = Some s'" "duproprio_evaluate node (formatDate d) = Inr l"
    "k = ''duproprio-'' @ str_of_undefined (at_index (split_char CHR ''-'' s') 1)" by blast
  then show ?thesis using duproprio_evaluate_Inr [of node "formatDate d" l]
    by (auto simp: node_id_def)
qed

lemma sutton_keys:
  assumes "scanSuttonListings d s = Inr ls" and "(k, l) \<in> set ls"
  shows "id' l = k \<and> (\<exists>native. k = ''sutton-'' @ native)"
proof -
  from scanSuttonListings_from_nodes [OF assms] obtain node l0 where
    "sutton_record node (formatDate d) = Inr l0" "l = by_value l0"
    "k = ''sutton-'' @ st_inscription_id node" by blast
  then show ?thesis using sutton_record_Inr [of node "formatDate d" l0] by auto
qed

lemma centris_keys:
  assumes "scanCentrisListings d lo hi s = Some (Inr ls)" and "(k, l) \<in> set ls"
  shows "id' l = k \<and> (\<exists>native. k = ''centris-'' @ native)"
proof -
  from scanCentrisListings_from_nodes [OF assms] obtain node l0 where
    "centris_record lo hi (formatDate d) node = Inr (Some (k, l0))" "l = by_value l0" by blast
  then show ?thesis using centris_record_Inr [of lo hi "formatDate d" node k l0] by auto
qed

lemma split_char_no_separator: "c \<notin> set s \<Longrightarrow> split_char c s = [s]"
  by (induction s) auto

text \<open>
  On an element whose id attribute is \<^verbatim>\<open>listing-\<close> followed by digits, the native id that
  DuProprio puts behind its prefix is those digits.
\<close>

lemma duproprio_native_id:
  assumes "list_all isDigit ds"
  shows "at_index (split_char CHR ''-'' (''listing-'' @ ds)) 1 = Some ds"
proof -
  have "CHR ''-'' \<notin> set ds"
  proof
    assume "CHR ''-'' \<in> set ds"
    with assms have "isDigit CHR ''-''" by (simp add: list_all_iff)
    then show False by (simp add: isDigit_def)
  qed
  then have "split_char CHR ''-'' ds = [ds]" by (rule split_char_no_separator)
  then have "split_char CHR ''-'' (''listing-'' @ ds) = [''listing'', ds]" by simp
  then show ?thesis by (simp add: at_index_def)
qed

text \<open>
  C8. Every key of a scanner's result is the id of its listing and is the scanner's own
  prefix (\<^verbatim>\<open>duproprio-\<close>, \<^verbatim>\<open>centris-\<close>, \<^verbatim>\<open>sutton-\<close>) followed by the native id that an
  element of the pages carries (for DuProprio the part of the id attribute after its first
  hyphen, for Centris the \<^verbatim>\<open>data-mlsnumber\<close> attribute, for Sutton the
  \<^verbatim>\<open>data-inscription-id\<close> attribute), so the results of two different scanners have no key
  in common.
\<close>

theorem ids_are_namespaced:
  assumes "scanDuproprioListings d1 s1 = Inr dp"
    and "scanCentrisListings d2 lo hi s2 = Some (Inr ct)"
    and "scanSuttonListings d3 s3 = Inr st"
  shows "(\<forall>(k, l) \<in> set dp. id' l = k \<and>
            (\<exists>node \<in> set (concat (map dp_items (pages s1))). \<exists>s. dp_id node = Some s \<and>
               k = ''duproprio-'' @ str_of_undefined (at_index (split_char CHR ''-'' s) 1))) \<and>
         (\<forall>(k, l) \<in> set ct. id' l = k \<and>
            (\<exists>node \<in> set (concat (map ct_items (pages s2))). \<exists>mls href.
               ct_details node = Some (mls, href) \<and> k = ''centris-'' @ str_of_null mls)) \<and>
         (\<forall>(k, l) \<in> set st. id' l = k \<and>
            (\<exists>node \<in> set (concat (map st_items (pages s3))).
               k = ''sutton-'' @ st_inscription_id node)) \<and>
         fst ` set dp \<inter> fst ` set ct = {} \<and>
         fst ` set dp \<inter> fst ` set st = {} \<and>
         fst ` set ct \<inter> fst ` set st = {}"
proof -
  have a: "\<forall>(k, l) \<in> set dp. id' l = k \<and> (\<exists>native. k = ''duproprio-'' @ native)"
    using duproprio_keys [OF assms(1)] by blast
  have b: "\<forall>(k, l) \<in> set ct. id' l = k \<and> (\<exists>native. k = ''centris-'' @ native)"
    using centris_keys [OF assms(2)] by blast
  have c: "\<forall>(k, l) \<in> set st. id' l = k \<and> (\<exists>native. k = ''sutton-'' @ native)"
    using sutton_keys [OF assms(3)] by blast
  have a': "\<exists>node \<in> set (concat (map dp_items (pages s1))). \<exists>s. dp_id node = Some s \<and>
               k = ''duproprio-'' @ str_of_undefined (at_index (split_char CHR ''-'' s) 1)"
    if "(k, l) \<in> set dp" for k l
  proof -
    from scanDuproprioListings_from_nodes [OF assms(1) that] obtain node s where
      n: "node \<in> set (concat (map duproprio_listingNodes (pages s1)))" and
      s: "dp_id node = Some s"
         "k = ''duproprio-'' @ str_of_undefined (at_index (split_char CHR ''-'' s) 1)"
      by blast
    from n have "node \<in> set (concat (map dp_items (pages s1)))"
      using listingNodes_subset by fastforce
    with s show ?thesis by blast
  qed
  have b': "\<exists>node \<in> set (concat (map ct_items (pages s2))). \<exists>mls href.
               ct_details node = Some (mls, href) \<and> k = ''centris-'' @ str_of_null mls"
    if "(k, l) \<in> set ct" for k l
  proof -
    from scanCentrisListings_from_nodes [OF assms(2) that] obtain node l0 where
      n: "node \<in> set (concat (map ct_items (pages s2)))" and
      r: "centris_record lo hi (formatDate d2) node = Inr (Some (k, l0))"
      by blast
    from centris_record_Inr [OF r] n show ?thesis by blast
  qed
  have c': "\<exists>node \<in> set (concat (map st_items (pages s3))).
               k = ''sutton-'' @ st_inscription_id node"
    if "(k, l) \<in> set st" for k l
    using scanSuttonListings_from_nodes [OF assms(3) that] by blast
  have "fst ` set dp \<inter> fst ` set ct = {}" using a b by fastforce
  moreover have "fst ` set dp \<inter> fst ` set st = {}" using a c by fastforce
  moreover have "fst ` set ct \<inter> fst ` set st = {}" using b c by fastforce
  moreover have "\<forall>(k, l) \<in> set dp. id' l = k \<and>
            (\<exists>node \<in> set (concat (map dp_items (pages s1))). \<exists>s. dp_id node = Some s \<and>
               k = ''duproprio-'' @ str_of_undefined (at_index (split_char CHR ''-'' s) 1))"
    using a a' by fast
  moreover have "\<forall>(k, l) \<in> set ct. id' l = k \<and>
            (\<exists>node \<in> set (concat (map ct_items (pages s2))). \<exists>mls href.
               ct_details node = Some (mls, href) \<and> k = ''centris-'' @ str_of_null mls)"
    using b b' by fast
  moreover have "\<forall>(k, l) \<in> set st. id' l = k \<and>
            (\<exists>node \<in> set (concat (map st_items (pages s3))).
               k = ''sutton-'' @ st_inscription_id node)"
    using c c' by fast
  ultimately show ?thesis by blast
qed

text \<open>
  C8, witness: one listing from each site; the three key sets are pairwise disjoint.
\<close>

theorem ids_are_namespaced_witness:
  "scanDuproprioListings \<lparr>getFullYear = 2021, getMonth = 0, getDate = 9\<rparr>
     (Goto_loads
        \<lparr>dp_items =
           [\<lparr>dp_sold = False, dp_id = Some ''listing-1'',
             dp_price = Some ''Prix sur demande'', dp_city = Some ''Montreal'', dp_address = None,
             dp_description = None, dp_img = Some (Some ''a.jpg''), dp_link = Some ''http://a/1''\<rparr>],
         dp_active_last = True, dp_next = False\<rparr> [])
   = Inr [(''duproprio-1'',
           \<lparr>id' = ''duproprio-1'', price = Null, city = Some ''Montreal'', address = None,
            description = None, imageUrl = Some ''a.jpg'', url = ''http://a/1'',
            dateScanned = ''2021-01-09'', source = ''DuProprio''\<rparr>)] \<and>
   scanCentrisListings \<lparr>getFullYear = 2021, getMonth = 0, getDate = 9\<rparr> 100000 500000
     (Goto_loads
        \<lparr>ct_items =
           [\<lparr>ct_sold = False, ct_details = Some (Some ''123'', ''http://c/123''),
             ct_address = Some ''1 rue A'', ct_city = Some ''Laval'',
             ct_img = Some ''http://c/i?id=1&w=320&h=240&sm=c'', ct_price = Some (Some ''250000'')\<rparr>],
         ct_next_active = True\<rparr>
        [\<lparr>ct_items = [], ct_next_active = False\<rparr>])
   = Some (Inr [(''centris-123'',
                 \<lparr>id' = ''centris-123'', price = Num 250000, city = Some ''Laval'',
                  address = Some ''1 rue A'', description = Some [],
                  imageUrl = Some ''http://c/i?id=1&w=640&h=480&sm=c'', url = ''http://c/123'',
                  dateScanned = ''2021-01-09'', source = ''Centris''\<rparr>)]) \<and>
   scanSuttonListings \<lparr>getFullYear = 2021, getMonth = 0, getDate = 9\<rparr>
     (Goto_loads
        \<lparr>st_items =
           [\<lparr>st_vendu = False, st_inscription_id = ''7'',
             st_details = Some (''Maison - 7 rue X'', ''http://b/7''), st_address = None,
             st_city = None, st_img = Some ''b.jpg'', st_prix = Some ''310000''\<rparr>],
         st_next_hidden = True, st_next = True\<rparr> [])
   = Inr [(''sutton-7'',
           \<lparr>id' = ''sutton-7'', price = Num 310000, city = None, address = None,
            description = Some ''Maison'', imageUrl = Some ''b.jpg'', url = ''http://b/7'',
            dateScanned = ''2021-01-09'', source = ''Sutton''\<rparr>)] \<and>
   fst ` set [(''duproprio-1'',
               \<lparr>id' = ''duproprio-1'', price = Null, city = Some ''Montreal'', address = None,
                description = None, imageUrl = Some ''a.jpg'', url = ''http://a/1'',
                dateScanned = ''2021-01-09'', source = ''DuProprio''\<rparr>)]
     \<inter> fst ` set [(''centris-123'',
                     \<lparr>id' = ''centris-123'', price = Num 250000, city = Some ''Laval'',
                      address = Some ''1 rue A'', description = Some [],
                      imageUrl = Some ''http://c/i?id=1&w=640&h=480&sm=c'', url = ''http://c/123'',
                      dateScanned = ''2021-01-09'', source = ''Centris''\<rparr>)] = {} \<and>
   fst ` set [(''duproprio-1'',
               \<lparr>id' = ''duproprio-1'', price = Null, city = Some ''Montreal'', address = None,
                description = None, imageUrl = Some ''a.jpg'', url = ''http://a/1'',
                dateScanned = ''2021-01-09'', source = ''DuProprio''\<rparr>)]
     \<inter> fst ` set [(''sutton-7'',
                     \<lparr>id' = ''sutton-7'', price = Num 310000, city = None, address = None,
                      description = Some ''Maison'', imageUrl = Some ''b.jpg'', url = ''http://b/7'',
                      dateScanned = ''2021-01-09'', source = ''Sutton''\<rparr>)] = {} \<and>
   fst ` set [(''centris-123'',
               \<lparr>id' = ''centris-123'', price = Num 250000, city = Some ''Laval'',
                address = Some ''1 rue A'', description = Some [],
                imageUrl = Some ''http://c/i?id=1&w=640&h=480&sm=c'', url = ''http://c/123'',
                dateScanned = ''2021-01-09'', source = ''Centris''\<rparr>)]
     \<inter> fst ` set [(''sutton-7'',
                     \<lparr>id' = ''sutton-7'', price = Num 310000, city = None, address = None,
                      description = Some ''Maison'', imageUrl = Some ''b.jpg'', url = ''http://b/7'',
                      dateScanned = ''2021-01-09'', source = ''Sutton''\<rparr>)] = {}"
proof -
  have date: "formatDate \<lparr>getFullYear = 2021, getMonth = 0, getDate = 9\<rparr> = ''2021-01-09''"
    by code_simp
  have dp: "scanDuproprioListings \<lparr>getFullYear = 2021, getMonth = 0, getDate = 9\<rparr>
      (Goto_loads
         \<lparr>dp_items =
            [\<lparr>dp_sold = False, dp_id = Some ''listing-1'',
              dp_price = Some ''Prix sur demande'', dp_city = Some ''Montreal'', dp_address = None,
              dp_description = None, dp_img = Some (Some ''a.jpg''), dp_link = Some ''http://a/1''\<rparr>],
          dp_active_last = True, dp_next = False\<rparr> [])
    = Inr [(''duproprio-1'',
            \<lparr>id' = ''duproprio-1'', price = Null, city = Some ''Montreal'', address = None,
             description = None, imageUrl = Some ''a.jpg'', url = ''http://a/1'',
             dateScanned = ''2021-01-09'', source = ''DuProprio''\<rparr>)]"
    by code_simp
  have st: "scanSuttonListings \<lparr>getFullYear = 2021, getMonth = 0, getDate = 9\<rparr>
      (Goto_loads
         \<lparr>st_items =
            [\<lparr>st_vendu = False, st_inscription_id = ''7'',
              st_details = Some (''Maison - 7 rue X'', ''http://b/7''), st_address = None,
              st_city = None, st_img = Some ''b.jpg'', st_prix = Some ''310000''\<rparr>],
          st_next_hidden = True, st_next = True\<rparr> [])
    = Inr [(''sutton-7'',
            \<lparr>id' = ''sutton-7'', price = Num 310000, city = None, address = None,
             description = Some ''Maison'', imageUrl = Some ''b.jpg'', url = ''http://b/7'',
             dateScanned = ''2021-01-09'', source = ''Sutton''\<rparr>)]"
    by code_simp
  have page1: "centris_for 100000 500000 ''2021-01-09''
      (ct_items
         \<lparr>ct_items =
            [\<lparr>ct_sold = False, ct_details = Some (Some ''123'', ''http://c/123''),
              ct_address = Some ''1 rue A'', ct_city = Some ''Laval'',
              ct_img = Some ''http://c/i?id=1&w=320&h=240&sm=c'', ct_price = Some (Some ''250000'')\<rparr>],
          ct_next_active = True\<rparr>) []
    = Inr [(''centris-123'',
            \<lparr>id' = ''centris-123'', price = Num 250000, city = Some ''Laval'',
             address = Some ''1 rue A'', description = Some [],
             imageUrl = Some ''http://c/i?id=1&w=640&h=480&sm=c'', url = ''http://c/123'',
             dateScanned = ''2021-01-09'', source = ''Centris''\<rparr>)]"
    by code_simp
  have page2: "centris_for 100000 500000 ''2021-01-09'' (ct_items \<lparr>ct_items = [], ct_next_active = False\<rparr>) ls = Inr ls" for ls
    by simp
  have ct: "scanCentrisListings \<lparr>getFullYear = 2021, getMonth = 0, getDate = 9\<rparr> 100000 500000
      (Goto_loads
         \<lparr>ct_items =
            [\<lparr>ct_sold = False, ct_details = Some (Some ''123'', ''http://c/123''),
              ct_address = Some ''1 rue A'', ct_city = Some ''Laval'',
              ct_img = Some ''http://c/i?id=1&w=320&h=240&sm=c'', ct_price = Some (Some ''250000'')\<rparr>],
          ct_next_active = True\<rparr>
         [\<lparr>ct_items = [], ct_next_active = False\<rparr>])
    = Some (Inr [(''centris-123'',
                 \<lparr>id' = ''centris-123'', price = Num 250000, city = Some ''Laval'',
                  address = Some ''1 rue A'', description = Some [],
                  imageUrl = Some ''http://c/i?id=1&w=640&h=480&sm=c'', url = ''http://c/123'',
                  dateScanned = ''2021-01-09'', source = ''Centris''\<rparr>)])"
    unfolding scanCentrisListings_def centris_evaluate_def date Let_def visit.case
    by (simp only: centris_while_first [OF _ page1] centris_while_click [OF _ _ page2]
          centris_page.simps fst_conv)
       (simp add: centris_while_inactive object_by_value_def by_value_def number_by_value_def)
  note disjoint = ids_are_namespaced [OF dp ct st, THEN conjunct2, THEN conjunct2, THEN conjunct2]
  show ?thesis
    by (intro conjI) (rule dp, rule ct, rule st, rule disjoint [THEN conjunct1],
      rule disjoint [THEN conjunct2, THEN conjunct1],
      rule disjoint [THEN conjunct2, THEN conjunct2])
qed

text \<open>
  The merged scan of a run stores every listing under its own id, which is what the
  statement about the dedup loop asks of it.
\<close>

lemma scan_websites_keyed_by_id:
  assumes "scan_websites w = Some (Inr scanned)"
  shows "keyed_by_id scanned"
proof -
  from assms obtain dp ct st where
    dp: "scanDuproprioListings (today w) (duproprio w) = Inr dp" and
    ct: "scanCentrisListings (today w) (minPrice w) (maxPrice w) (centris w) = Some (Inr ct)" and
    st: "scanSuttonListings (today w) (sutton w) = Inr st" and
    sc: "scanned = Object_assign (Object_assign dp ct) st"
    by (auto simp: scan_websites_def split: sum.splits option.splits)
  have "set scanned \<subseteq> set dp \<union> set ct \<union> set st"
    using set_Object_assign_subset [of "Object_assign dp ct" st]
      set_Object_assign_subset [of dp ct] by (auto simp: sc)
  then have "\<forall>(k, l) \<in> set scanned. id' l = k"
    using duproprio_keys [OF dp] centris_keys [OF ct] sutton_keys [OF st] by blast
  then show ?thesis by (simp add: keyed_by_id_def list_all_iff)
qed

section \<open>Sold items\<close>

lemma listingNodes_unsold [simp]:
  "duproprio_listingNodes (duproprio_unsold p) = duproprio_listingNodes p"
  by (simp add: duproprio_listingNodes_def duproprio_unsold_def)

lemma duproprio_unsold_pager [simp]:
  "dp_active_last (duproprio_unsold p) = dp_active_last p"
  "dp_next (duproprio_unsold p) = dp_next p"
  by (simp_all add: duproprio_unsold_def)

lemma duproprio_do_while_unsold:
  "duproprio_do_while t (duproprio_unsold p) (map duproprio_unsold rest) st =
   duproprio_do_while t p rest st"
proof (induction rest arbitrary: p st)
  case Nil
  obtain n acc where st: "st = (n, acc)" by force
  show ?case by (simp add: st duproprio_do_while.simps Let_def split: prod.splits option.splits)
next
  case (Cons p' rest)
  obtain n acc where st: "st = (n, acc)" by force
  have "duproprio_do_while t (duproprio_unsold p) (map duproprio_unsold (p' # rest)) (n, acc) =
        duproprio_do_while t p (p' # rest) (n, acc)"
    unfolding duproprio_do_while.simps [of t "duproprio_unsold p"] duproprio_do_while.simps [of t p]
    by (simp add: Cons.IH Let_def split: prod.splits option.splits)
  then show ?case by (simp add: st)
qed

lemma sutton_for_unsold:
  "sutton_for t (filter (\<lambda>n. \<not> st_vendu n) nodes) acc = sutton_for t nodes acc"
  by (induction nodes arbitrary: acc) (auto split: sum.splits)

lemma sutton_evaluate_unsold [simp]:
  "sutton_evaluate (sutton_unsold p) t = sutton_evaluate p t"
  by (simp add: sutton_evaluate_def sutton_unsold_def sutton_for_unsold)

lemma sutton_unsold_pager [simp]:
  "st_next_hidden (sutton_unsold p) = st_next_hidden p"
  "st_next (sutton_unsold p) = st_next p"
  by (simp_all add: sutton_unsold_def)

lemma sutton_do_while_unsold:
  "sutton_do_while t (sutton_unsold p) (map sutton_unsold rest) st =
   sutton_do_while t p rest st"
proof (induction rest arbitrary: p st)
  case Nil
  obtain n acc where st: "st = (n, acc)" by force
  show ?case by (simp add: st sutton_do_while.simps Let_def split: sum.splits)
next
  case (Cons p' rest)
  obtain n acc where st: "st = (n, acc)" by force
  have "sutton_do_while t (sutton_unsold p) (map sutton_unsold (p' # rest)) (n, acc) =
        sutton_do_while t p (p' # rest) (n, acc)"
    unfolding sutton_do_while.simps [of t "sutton_unsold p"] sutton_do_while.simps [of t p]
    by (simp add: Cons.IH Let_def split: sum.splits)
  then show ?case by (simp add: st)
qed

text \<open>
  C4, as the code has it. On DuProprio and Sutton an element marked as sold contributes
  nothing: the scan returns what it returns on the same pages without their sold elements.
  (The Centris scanner has no such check; see the counterexample.)
\<close>

theorem sold_items_contribute_nothing:
  "scanDuproprioListings d (map_visit duproprio_unsold s1) = scanDuproprioListings d s1 \<and>
   scanSuttonListings d (map_visit sutton_unsold s3) = scanSuttonListings d s3"
proof
  show "scanDuproprioListings d (map_visit duproprio_unsold s1) = scanDuproprioListings d s1"
    by (cases s1) (simp_all add: scanDuproprioListings_def duproprio_try_def duproprio_do_while_unsold)
  show "scanSuttonListings d (map_visit sutton_unsold s3) = scanSuttonListings d s3"
    by (cases s3) (simp_all add: scanSuttonListings_def sutton_try_def sutton_do_while_unsold)
qed

text \<open>
  C4 as stated fails on Centris: the scanner asks no page whether an element is sold.
  An element marked as sold, with a price within the bounds, is in the result.
\<close>

theorem centris_sold_item_counterexample:
  "scanCentrisListings \<lparr>getFullYear = 2021, getMonth = 0, getDate = 9\<rparr> 100000 500000
     (Goto_loads
        \<lparr>ct_items =
           [\<lparr>ct_sold = True, ct_details = Some (Some ''123'', ''http://c/123''),
             ct_address = Some ''1 rue A'', ct_city = Some ''Laval'',
             ct_img = Some ''http://c/i?id=1&w=320&h=240&sm=c'', ct_price = Some (Some ''250000'')\<rparr>],
         ct_next_active = True\<rparr>
        [\<lparr>ct_items = [], ct_next_active = False\<rparr>])
   = Some (Inr [(''centris-123'',
                 \<lparr>id' = ''centris-123'', price = Num 250000, city = Some ''Laval'',
                  address = Some ''1 rue A'', description = Some [],
                  imageUrl = Some ''http://c/i?id=1&w=640&h=480&sm=c'', url = ''http://c/123'',
                  dateScanned = ''2021-01-09'', source = ''Centris''\<rparr>)])"
proof -
  have date: "formatDate \<lparr>getFullYear = 2021, getMonth = 0, getDate = 9\<rparr> = ''2021-01-09''"
    by code_simp
  have page1: "centris_for 100000 500000 ''2021-01-09''
      (ct_items
         \<lparr>ct_items =
            [\<lparr>ct_sold = True, ct_details = Some (Some ''123'', ''http://c/123''),
              ct_address = Some ''1 rue A'', ct_city = Some ''Laval'',
              ct_img = Some ''http://c/i?id=1&w=320&h=240&sm=c'', ct_price = Some (Some ''250000'')\<rparr>],
          ct_next_active = True\<rparr>) []
    = Inr [(''centris-123'',
            \<lparr>id' = ''centris-123'', price = Num 250000, city = Some ''Laval'',
             address = Some ''1 rue A'', description = Some [],
             imageUrl = Some ''http://c/i?id=1&w=640&h=480&sm=c'', url = ''http://c/123'',
             dateScanned = ''2021-01-09'', source = ''Centris''\<rparr>)]"
    by code_simp
  have page2: "centris_for 100000 500000 ''2021-01-09'' (ct_items \<lparr>ct_items = [], ct_next_active = False\<rparr>) ls = Inr ls" for ls
    by simp
  have ct: "scanCentrisListings \<lparr>getFullYear = 2021, getMonth = 0, getDate = 9\<rparr> 100000 500000
      (Goto_loads
         \<lparr>ct_items =
            [\<lparr>ct_sold = True, ct_details = Some (Some ''123'', ''http://c/123''),
              ct_address = Some ''1 rue A'', ct_city = Some ''Laval'',
              ct_img = Some ''http://c/i?id=1&w=320&h=240&sm=c'', ct_price = Some (Some ''250000'')\<rparr>],
          ct_next_active = True\<rparr>
         [\<lparr>ct_items = [], ct_next_active = False\<rparr>])
    = Some (Inr [(''centris-123'',
                 \<lparr>id' = ''centris-123'', price = Num 250000, city = Some ''Laval'',
                  address = Some ''1 rue A'', description = Some [],
                  imageUrl = Some ''http://c/i?id=1&w=640&h=480&sm=c'', url = ''http://c/123'',
                  dateScanned = ''2021-01-09'', source = ''Centris''\<rparr>)])"
    unfolding scanCentrisListings_def centris_evaluate_def date Let_def visit.case
    by (simp only: centris_while_first [OF _ page1] centris_while_click [OF _ _ page2]
          centris_page.simps fst_conv)
       (simp add: centris_while_inactive object_by_value_def by_value_def number_by_value_def)
  show ?thesis by (rule ct)
qed

section \<open>Pagination\<close>

text \<open>
  What the three loops do on a page sequence of length \<open>N\<close> whose terminal signal holds
  on the last page only, when every non-terminal page has its next link and no extraction
  raises: the DuProprio and Sutton loops end with \<^verbatim>\<open>pageNumber\<close> \<open>N\<close> and the union of the
  listings of the \<open>N\<close> pages. The Centris loop does so for \<open>N \<ge> 2\<close> (it counts one past
  the pages it has read); for \<open>N = 1\<close> it reads nothing.
\<close>

lemma map_of_Object_assign:
  "distinct (map fst src) \<Longrightarrow> map_of (Object_assign target src) = map_of target ++ map_of src"
proof -
  have "distinct (map fst src) \<Longrightarrow>
        map_of (fold (\<lambda>(k, v) t. AList.update k v t) src target) = map_of target ++ map_of src"
  proof (induction src arbitrary: target)
    case Nil
    then show ?case by simp
  next
    case (Cons kv src)
    obtain k v where kv: "kv = (k, v)" by force
    from Cons.prems kv have d: "distinct (map fst src)" and nk: "k \<notin> fst ` set src" by auto
    have "k \<notin> dom (map_of src)" using nk by (simp add: dom_map_of_conv_image_fst)
    then have "(map_of target)(k \<mapsto> v) ++ map_of src = (map_of target ++ map_of src)(k \<mapsto> v)"
      by (rule map_add_upd_left)
    also have "\<dots> = map_of target ++ (map_of src)(k \<mapsto> v)"
      by (rule map_add_upd [symmetric])
    finally have "(map_of target)(k \<mapsto> v) ++ map_of src = map_of target ++ map_of (kv # src)"
      by (simp add: kv)
    moreover have "fold (\<lambda>(k, v) t. AList.update k v t) (kv # src) target =
        fold (\<lambda>(k, v) t. AList.update k v t) src (AList.update k v target)"
      by (simp add: kv)
    ultimately show ?case by (simp only: Cons.IH [OF d] update_conv')
  qed
  then show "distinct (map fst src) \<Longrightarrow> ?thesis" by (simp add: Object_assign_def)
qed

lemma duproprio_for_acc:
  "fst (duproprio_for t nodes acc) = fst (duproprio_for t nodes []) \<and>
   (fst (duproprio_for t nodes []) = None \<longrightarrow>
      map_of (snd (duproprio_for t nodes acc)) =
      map_of acc ++ map_of (snd (duproprio_for t nodes [])))"
proof (induction nodes arbitrary: acc)
  case Nil
  then show ?case by simp
next
  case (Cons node nodes)
  show ?case
  proof (cases "test_listing_digits (str_of_null (dp_id node))")
    case False
    then show ?thesis using Cons.IH [of acc] by simp
  next
    case True
    show ?thesis
    proof (cases "dp_id node")
      case None
      then show ?thesis using True by simp
    next
      case (Some s)
      show ?thesis
      proof (cases "duproprio_evaluate node t")
        case (Inl e)
        then show ?thesis using True Some by simp
      next
        case (Inr l)
        define k where "k = ''duproprio-'' @ str_of_undefined (at_index (split_char CHR ''-'' s) 1)"
        have a: "duproprio_for t (node # nodes) acc = duproprio_for t nodes (AList.update k l acc)"
          for acc using True Some Inr by (simp add: Let_def k_def)
        have m: "(map_of acc)(k \<mapsto> l) ++ m = map_of acc ++ ([k \<mapsto> l] ++ m)" for m
        proof -
          have e: "map_of acc ++ [k \<mapsto> l] = (map_of acc)(k \<mapsto> l)"
            by (simp only: map_add_upd map_add_empty)
          show ?thesis by (simp only: map_add_assoc e)
        qed
        note ih1 = Cons.IH [of "AList.update k l acc"]
        note ih2 = Cons.IH [of "AList.update k l []"]
        have f: "fst (duproprio_for t nodes (AList.update k l acc)) =
                 fst (duproprio_for t nodes (AList.update k l []))"
          using ih1 ih2 by (simp only:)
        have g: "map_of (snd (duproprio_for t nodes (AList.update k l acc))) =
                 map_of acc ++ map_of (snd (duproprio_for t nodes (AList.update k l [])))"
          if "fst (duproprio_for t nodes (AList.update k l [])) = None"
        proof -
          from that ih2 have n: "fst (duproprio_for t nodes []) = None" by (simp only:)
          from ih1 n have "map_of (snd (duproprio_for t nodes (AList.update k l acc))) =
            (map_of acc)(k \<mapsto> l) ++ map_of (snd (duproprio_for t nodes []))"
            by (simp only: update_conv')
          moreover from ih2 n have "map_of (snd (duproprio_for t nodes (AList.update k l []))) =
            [k \<mapsto> l] ++ map_of (snd (duproprio_for t nodes []))"
            by (simp only: update_conv' map_of.simps)
          ultimately show ?thesis by (simp only: m)
        qed
        show ?thesis unfolding a using f g by blast
      qed
    qed
  qed
qed

lemma foldl_map_add:
  "foldl (\<lambda>m ls. m ++ map_of ls) (a ++ b) lss = a ++ foldl (\<lambda>m ls. m ++ map_of ls) b lss"
proof (induction lss arbitrary: b)
  case Nil
  then show ?case by simp
next
  case (Cons ls lss)
  show ?case using Cons.IH [of "b ++ map_of ls"] by simp
qed

lemma union_listings_Cons: "union_listings (ls # lss) = map_of ls ++ union_listings lss"
  using foldl_map_add [of "map_of ls" Map.empty lss] by (simp add: union_listings_def)

lemma signal_only_on_last_Cons:
  "signal_only_on_last sig (p # p' # rest) \<longleftrightarrow> \<not> sig p \<and> signal_only_on_last sig (p' # rest)"
  by (auto simp: signal_only_on_last_def)

lemma signal_only_on_last_single: "signal_only_on_last sig [p] \<longleftrightarrow> sig p"
  by (simp add: signal_only_on_last_def)

lemma duproprio_do_while_pagination:
  assumes "signal_only_on_last dp_active_last (p # rest)"
    and "list_all dp_next (butlast (p # rest))"
    and "list_all (duproprio_page_ok t) (p # rest)"
  shows "\<exists>ls. duproprio_do_while t p rest (n, acc) = (None, n + length rest, ls, []) \<and>
           map_of ls = map_of acc ++ union_listings (map (duproprio_page_listings t) (p # rest))"
  using assms
proof (induction rest arbitrary: p n acc)
  case Nil
  obtain e ls where f: "duproprio_for t (duproprio_listingNodes p) acc = (e, ls)" by force
  from Nil.prems(3) have ok: "fst (duproprio_for t (duproprio_listingNodes p) []) = None"
    by (simp add: duproprio_page_ok_def)
  with duproprio_for_acc [of t "duproprio_listingNodes p" acc] f
  have e: "e = None" and m: "map_of ls = map_of acc ++ map_of (duproprio_page_listings t p)"
    by (simp_all add: duproprio_page_listings_def)
  from Nil.prems(1) have "dp_active_last p" by (simp add: signal_only_on_last_single)
  then show ?case using f e m
    by (simp add: duproprio_do_while.simps union_listings_Cons union_listings_def)
next
  case (Cons p' rest)
  obtain e ls where f: "duproprio_for t (duproprio_listingNodes p) acc = (e, ls)" by force
  from Cons.prems(3) have ok: "fst (duproprio_for t (duproprio_listingNodes p) []) = None"
    by (simp add: duproprio_page_ok_def)
  with duproprio_for_acc [of t "duproprio_listingNodes p" acc] f
  have e: "e = None" and m: "map_of ls = map_of acc ++ map_of (duproprio_page_listings t p)"
    by (simp_all add: duproprio_page_listings_def)
  from Cons.prems(1) have nl: "\<not> dp_active_last p" and s': "signal_only_on_last dp_active_last (p' # rest)"
    by (simp_all add: signal_only_on_last_Cons)
  from Cons.prems(2) have nx: "dp_next p" and n': "list_all dp_next (butlast (p' # rest))"
    by simp_all
  from Cons.prems(3) have o': "list_all (duproprio_page_ok t) (p' # rest)" by simp
  from Cons.IH [OF s' n' o', of "n + 1" ls] obtain ls' where
    r: "duproprio_do_while t p' rest (n + 1, ls) = (None, n + 1 + length rest, ls', [])" and
    m': "map_of ls' = map_of ls ++ union_listings (map (duproprio_page_listings t) (p' # rest))"
    by blast
  have "duproprio_do_while t p (p' # rest) (n, acc) = (None, n + length (p' # rest), ls', [])"
    using f e nl nx r by (simp add: duproprio_do_while.simps [of t p])
  moreover have "map_of ls' = map_of acc ++ union_listings (map (duproprio_page_listings t) (p # p' # rest))"
    using m m' by (simp add: union_listings_Cons)
  ultimately show ?case by blast
qed

lemma duproprio_pagination:
  assumes "signal_only_on_last dp_active_last (p # rest)"
    and "list_all dp_next (butlast (p # rest))"
    and "list_all (duproprio_page_ok t) (p # rest)"
  shows "\<exists>ls. duproprio_try t (Goto_loads p rest) = (None, length (p # rest), ls, []) \<and>
           map_of ls = union_listings (map (duproprio_page_listings t) (p # rest))"
  using duproprio_do_while_pagination [OF assms, of 1 "[]"]
  by (simp add: duproprio_try_def)

lemma sutton_for_distinct:
  "distinct (map fst acc) \<Longrightarrow> sutton_for t nodes acc = Inr ls \<Longrightarrow> distinct (map fst ls)"
proof (induction nodes arbitrary: acc)
  case Nil
  then show ?case by simp
next
  case (Cons node nodes)
  show ?case
  proof (cases "st_vendu node")
    case True
    then show ?thesis using Cons by simp
  next
    case False
    show ?thesis
    proof (cases "sutton_record node t")
      case (Inl e)
      then show ?thesis using False Cons.prems by simp
    next
      case (Inr l)
      have "distinct (map fst (AList.update (''sutton-'' @ st_inscription_id node) l acc))"
        using Cons.prems(1) by (rule distinct_update)
      then show ?thesis using Cons.IH [of "AList.update (''sutton-'' @ st_inscription_id node) l acc"]
          Cons.prems(2) False Inr by simp
    qed
  qed
qed

lemma sutton_do_while_pagination:
  assumes "signal_only_on_last st_next_hidden (p # rest)"
    and "list_all st_next (butlast (p # rest))"
    and "list_all (sutton_page_ok t) (p # rest)"
  shows "\<exists>ls. sutton_do_while t p rest (n, acc) = (None, n + length rest, ls, []) \<and>
           map_of ls = map_of acc ++ union_listings (map (sutton_page_listings t) (p # rest))"
  using assms
proof (induction rest arbitrary: p n acc)
  case Nil
  from Nil.prems(3) obtain pl where pl: "sutton_evaluate p t = Inr pl"
    by (auto simp: sutton_page_ok_def split: sum.splits)
  then have d: "distinct (map fst pl)"
    using sutton_for_distinct [of "[]" t "st_items p"]
    by (auto simp: sutton_evaluate_def split: sum.splits)
  have m: "map_of (Object_assign acc pl) = map_of acc ++ map_of (sutton_page_listings t p)"
    using map_of_Object_assign [OF d] pl by (simp add: sutton_page_listings_def)
  from Nil.prems(1) have "st_next_hidden p" by (simp add: signal_only_on_last_single)
  then show ?case using pl m
    by (simp add: sutton_do_while.simps union_listings_Cons union_listings_def)
next
  case (Cons p' rest)
  from Cons.prems(3) obtain pl where pl: "sutton_evaluate p t = Inr pl"
    by (auto simp: sutton_page_ok_def split: sum.splits)
  then have d: "distinct (map fst pl)"
    using sutton_for_distinct [of "[]" t "st_items p"]
    by (auto simp: sutton_evaluate_def split: sum.splits)
  have m: "map_of (Object_assign acc pl) = map_of acc ++ map_of (sutton_page_listings t p)"
    using map_of_Object_assign [OF d] pl by (simp add: sutton_page_listings_def)
  from Cons.prems(1) have nl: "\<not> st_next_hidden p"
    and s': "signal_only_on_last st_next_hidden (p' # rest)"
    by (simp_all add: signal_only_on_last_Cons)
  from Cons.prems(2) have nx: "st_next p" and n': "list_all st_next (butlast (p' # rest))"
    by simp_all
  from Cons.prems(3) have o': "list_all (sutton_page_ok t) (p' # rest)" by simp
  from Cons.IH [OF s' n' o', of "n + 1" "Object_assign acc pl"] obtain ls' where
    r: "sutton_do_while t p' rest (n + 1, Object_assign acc pl) = (None, n + 1 + length rest, ls', [])" and
    m': "map_of ls' = map_of (Object_assign acc pl) ++
           union_listings (map (sutton_page_listings t) (p' # rest))"
    by blast
  have "sutton_do_while t p (p' # rest) (n, acc) = (None, n + length (p' # rest), ls', [])"
    using pl nl nx r by (simp add: sutton_do_while.simps [of t p])
  moreover have "map_of ls' = map_of acc ++ union_listings (map (sutton_page_listings t) (p # p' # rest))"
    using m m' by (simp add: union_listings_Cons)
  ultimately show ?case by blast
qed

lemma sutton_pagination:
  assumes "signal_only_on_last st_next_hidden (p # rest)"
    and "list_all st_next (butlast (p # rest))"
    and "list_all (sutton_page_ok t) (p # rest)"
  shows "\<exists>ls. sutton_try t (Goto_loads p rest) = (None, length (p # rest), ls, []) \<and>
           map_of ls = union_listings (map (sutton_page_listings t) (p # rest))"
  using sutton_do_while_pagination [OF assms, of 1 "[]"]
  by (simp add: sutton_try_def)

lemma centris_for_acc:
  "case centris_for lo hi t nodes [] of
     Inl e \<Rightarrow> centris_for lo hi t nodes acc = Inl e
   | Inr pl \<Rightarrow> (\<exists>ls. centris_for lo hi t nodes acc = Inr ls \<and> map_of ls = map_of acc ++ map_of pl)"
proof (induction nodes arbitrary: acc)
  case Nil
  then show ?case by simp
next
  case (Cons node nodes)
  show ?case
  proof (cases "centris_record lo hi t node")
    case (Inl e)
    then show ?thesis by simp
  next
    case (Inr r)
    show ?thesis
    proof (cases r)
      case None
      then show ?thesis using Inr Cons.IH [of acc] by (simp split: sum.splits)
    next
      case (Some kl)
      obtain k l where kl: "kl = (k, l)" by force
      have a: "centris_for lo hi t (node # nodes) acc = centris_for lo hi t nodes (AList.update k l acc)"
        for acc using Inr Some kl by simp
      have m: "(map_of acc)(k \<mapsto> l) ++ m = map_of acc ++ ([k \<mapsto> l] ++ m)" for m
      proof -
        have e: "map_of acc ++ [k \<mapsto> l] = (map_of acc)(k \<mapsto> l)"
          by (simp only: map_add_upd map_add_empty)
        show ?thesis by (simp only: map_add_assoc e)
      qed
      note ih1 = Cons.IH [of "AList.update k l acc"]
      note ih2 = Cons.IH [of "AList.update k l []"]
      show ?thesis
      proof (cases "centris_for lo hi t nodes []")
        case (Inl e)
        with ih1 ih2 show ?thesis unfolding a by simp
      next
        case (Inr pl)
        with ih1 obtain ls1 where l1: "centris_for lo hi t nodes (AList.update k l acc) = Inr ls1"
          and m1: "map_of ls1 = map_of (AList.update k l acc) ++ map_of pl" by auto
        from Inr ih2 obtain ls2 where l2: "centris_for lo hi t nodes (AList.update k l []) = Inr ls2"
          and m2: "map_of ls2 = map_of (AList.update k l []) ++ map_of pl" by auto
        have "map_of ls1 = map_of acc ++ map_of ls2"
          using m1 m2 by (simp only: update_conv' map_of.simps m)
        then show ?thesis unfolding a using l1 l2 by simp
      qed
    qed
  qed
qed

lemma centris_for_page:
  assumes "centris_page_ok lo hi t p"
  shows "\<exists>ls. centris_for lo hi t (ct_items p) acc = Inr ls \<and>
           map_of ls = map_of acc ++ map_of (centris_page_listings lo hi t p)"
  using assms centris_for_acc [of lo hi t "ct_items p" acc]
  by (auto simp: centris_page_ok_def centris_page_listings_def split: sum.splits)

lemma centris_while_pagination:
  assumes "signal_only_on_last (\<lambda>p. \<not> ct_next_active p) (p # rest)"
    and "list_all (centris_page_ok lo hi t) rest"
    and "1 < n"
  shows "\<exists>ls. centris_while lo hi t (p, rest) (n, acc) = Some (Inr (n + length rest, ls)) \<and>
           map_of ls = map_of acc ++ union_listings (map (centris_page_listings lo hi t) rest)"
  using assms
proof (induction rest arbitrary: p n acc)
  case Nil
  then have "\<not> ct_next_active p" by (simp add: signal_only_on_last_single)
  then show ?case by (simp add: centris_while_inactive union_listings_def)
next
  case (Cons p' rest)
  from Cons.prems(1) have act: "ct_next_active p"
    and s': "signal_only_on_last (\<lambda>p. \<not> ct_next_active p) (p' # rest)"
    by (simp_all add: signal_only_on_last_Cons)
  from Cons.prems(2) have ok: "centris_page_ok lo hi t p'"
    and o': "list_all (centris_page_ok lo hi t) rest" by simp_all
  from centris_for_page [OF ok, of acc] obtain ls1 where
    f: "centris_for lo hi t (ct_items p') acc = Inr ls1" and
    m1: "map_of ls1 = map_of acc ++ map_of (centris_page_listings lo hi t p')" by blast
  from Cons.prems(3) have n1: "1 < n + 1" by simp
  from Cons.IH [OF s' o' n1, of ls1] obtain ls where
    r: "centris_while lo hi t (p', rest) (n + 1, ls1) = Some (Inr (n + 1 + length rest, ls))" and
    m: "map_of ls = map_of ls1 ++ union_listings (map (centris_page_listings lo hi t) rest)"
    by blast
  have "centris_while lo hi t (p, p' # rest) (n, acc) = Some (Inr (n + length (p' # rest), ls))"
    using centris_while_click [OF act Cons.prems(3) f] r by simp
  moreover have "map_of ls = map_of acc ++ union_listings (map (centris_page_listings lo hi t) (p' # rest))"
    using m m1 by (simp add: union_listings_Cons)
  ultimately show ?case by blast
qed

lemma centris_pagination:
  assumes "signal_only_on_last (\<lambda>p. \<not> ct_next_active p) (p # p' # rest)"
    and "list_all (centris_page_ok lo hi t) (p # p' # rest)"
  shows "\<exists>ls. centris_evaluate lo hi t (p, p' # rest) =
                Some (Inr (length (p # p' # rest) + 1, object_by_value ls)) \<and>
           map_of ls = union_listings (map (centris_page_listings lo hi t) (p # p' # rest))"
proof -
  from assms(1) have act: "ct_next_active p"
    and s': "signal_only_on_last (\<lambda>p. \<not> ct_next_active p) (p # p' # rest)"
    by (simp_all add: signal_only_on_last_Cons)
  from assms(2) have ok: "centris_page_ok lo hi t p"
    and o': "list_all (centris_page_ok lo hi t) (p' # rest)" by simp_all
  from centris_for_page [OF ok, of "[]"] obtain ls1 where
    f: "centris_for lo hi t (ct_items p) [] = Inr ls1" and
    m1: "map_of ls1 = map_of (centris_page_listings lo hi t p)" by auto
  from centris_while_pagination [OF s' o', of 2 ls1] obtain ls where
    r: "centris_while lo hi t (p, p' # rest) (2, ls1) = Some (Inr (2 + length (p' # rest), ls))" and
    m: "map_of ls = map_of ls1 ++ union_listings (map (centris_page_listings lo hi t) (p' # rest))"
    by auto
  have "centris_evaluate lo hi t (p, p' # rest) =
          Some (Inr (length (p # p' # rest) + 1, object_by_value ls))"
    using centris_while_first [OF act f] r by (simp add: centris_evaluate_def)
  moreover have "map_of ls = union_listings (map (centris_page_listings lo hi t) (p # p' # rest))"
    using m m1 by (simp add: union_listings_Cons [of _ "_ # _"])
  ultimately show ?thesis by blast
qed

lemma centris_first_page_terminal:
  "\<not> ct_next_active p \<Longrightarrow> scanCentrisListings d lo hi (Goto_loads p rest) = Some (Inr [])"
  by (simp add: scanCentrisListings_def centris_evaluate_def centris_while_inactive)

text \<open>
  C9. A Centris result set that fits on one page: the terminal signal (no active "next"
  link) holds on page 1, and the page holds one listing within the price bounds. The
  \<^verbatim>\<open>while\<close> loop tests the signal before it reads anything, so it reads no page and the
  scan returns an empty mapping instead of the listing of the page.
\<close>

theorem centris_single_page_is_dropped:
  "centris_for 100000 500000 ''2021-01-09''
     (ct_items
        \<lparr>ct_items =
           [\<lparr>ct_sold = False, ct_details = Some (Some ''123'', ''http://c/123''),
             ct_address = Some ''1 rue A'', ct_city = Some ''Laval'',
             ct_img = Some ''http://c/i?id=1&w=320&h=240&sm=c'', ct_price = Some (Some ''250000'')\<rparr>],
         ct_next_active = False\<rparr>) []
   = Inr [(''centris-123'',
           \<lparr>id' = ''centris-123'', price = Num 250000, city = Some ''Laval'',
            address = Some ''1 rue A'', description = Some [],
            imageUrl = Some ''http://c/i?id=1&w=640&h=480&sm=c'', url = ''http://c/123'',
            dateScanned = ''2021-01-09'', source = ''Centris''\<rparr>)] \<and>
   centris_evaluate 100000 500000 ''2021-01-09''
     (\<lparr>ct_items =
         [\<lparr>ct_sold = False, ct_details = Some (Some ''123'', ''http://c/123''),
           ct_address = Some ''1 rue A'', ct_city = Some ''Laval'',
           ct_img = Some ''http://c/i?id=1&w=320&h=240&sm=c'', ct_price = Some (Some ''250000'')\<rparr>],
       ct_next_active = False\<rparr>, [])
   = Some (Inr (1, [])) \<and>
   scanCentrisListings \<lparr>getFullYear = 2021, getMonth = 0, getDate = 9\<rparr> 100000 500000
     (Goto_loads
        \<lparr>ct_items =
           [\<lparr>ct_sold = False, ct_details = Some (Some ''123'', ''http://c/123''),
             ct_address = Some ''1 rue A'', ct_city = Some ''Laval'',
             ct_img = Some ''http://c/i?id=1&w=320&h=240&sm=c'', ct_price = Some (Some ''250000'')\<rparr>],
         ct_next_active = False\<rparr> [])
   = Some (Inr [])"
proof -
  have date: "formatDate \<lparr>getFullYear = 2021, getMonth = 0, getDate = 9\<rparr> = ''2021-01-09''"
    by code_simp
  have page1: "centris_for 100000 500000 ''2021-01-09''
     (ct_items
        \<lparr>ct_items =
           [\<lparr>ct_sold = False, ct_details = Some (Some ''123'', ''http://c/123''),
             ct_address = Some ''1 rue A'', ct_city = Some ''Laval'',
             ct_img = Some ''http://c/i?id=1&w=320&h=240&sm=c'', ct_price = Some (Some ''250000'')\<rparr>],
         ct_next_active = False\<rparr>) []
   = Inr [(''centris-123'',
           \<lparr>id' = ''centris-123'', price = Num 250000, city = Some ''Laval'',
            address = Some ''1 rue A'', description = Some [],
            imageUrl = Some ''http://c/i?id=1&w=640&h=480&sm=c'', url = ''http://c/123'',
            dateScanned = ''2021-01-09'', source = ''Centris''\<rparr>)]"
    by code_simp
  have ev: "centris_evaluate 100000 500000 t
     (\<lparr>ct_items =
         [\<lparr>ct_sold = False, ct_details = Some (Some ''123'', ''http://c/123''),
           ct_address = Some ''1 rue A'', ct_city = Some ''Laval'',
           ct_img = Some ''http://c/i?id=1&w=320&h=240&sm=c'', ct_price = Some (Some ''250000'')\<rparr>],
       ct_next_active = False\<rparr>, [])
   = Some (Inr (1, []))" for t
    by (simp add: centris_evaluate_def centris_while_inactive)
  have sc: "scanCentrisListings \<lparr>getFullYear = 2021, getMonth = 0, getDate = 9\<rparr> 100000 500000
     (Goto_loads
        \<lparr>ct_items =
           [\<lparr>ct_sold = False, ct_details = Some (Some ''123'', ''http://c/123''),
             ct_address = Some ''1 rue A'', ct_city = Some ''Laval'',
             ct_img = Some ''http://c/i?id=1&w=320&h=240&sm=c'', ct_price = Some (Some ''250000'')\<rparr>],
         ct_next_active = False\<rparr> [])
   = Some (Inr [])"
    by (simp add: scanCentrisListings_def date ev)
  show ?thesis
    by (intro conjI) (rule page1, rule ev, rule sc)
qed

section \<open>The runs that end\<close>

text \<open>
  The Centris loop is the only one that can go on for ever: on the last content of the
  sequence a click changes nothing, so the loop returns exactly when some page has no
  active "next" link or raises during extraction. A run ends exactly when Centris cannot
  be reached or its loop returns; the two other scanners always return.
\<close>

lemma centris_for_raises:
  "\<not> centris_page_ok lo hi t p \<Longrightarrow> \<exists>e. centris_for lo hi t (ct_items p) acc = Inl e"
  using centris_for_acc [of lo hi t "ct_items p" acc]
  by (auto simp: centris_page_ok_def split: sum.splits)

lemma centris_while_returns:
  assumes "\<not> ct_next_active p \<or>
           (\<exists>q \<in> set rest. \<not> ct_next_active q \<or> \<not> centris_page_ok lo hi t q)"
    and "1 < n"
  shows "\<exists>y. centris_while lo hi t (p, rest) (n, acc) = Some y"
  using assms
proof (induction rest arbitrary: p n acc)
  case Nil
  then show ?case by (simp add: centris_while_inactive)
next
  case (Cons p' rest)
  show ?case
  proof (cases "ct_next_active p")
    case False
    then show ?thesis by (simp add: centris_while_inactive)
  next
    case True
    show ?thesis
    proof (cases "centris_page_ok lo hi t p'")
      case False
      from centris_for_raises [OF False, of acc] obtain e where
        "centris_for lo hi t (ct_items p') acc = Inl e" by blast
      then have "centris_while lo hi t (p, p' # rest) (n, acc) = Some (Inl e)"
        using True Cons.prems(2)
        by (subst centris_while.simps) (simp add: centris_click_def)
      then show ?thesis by blast
    next
      case ok: True
      from centris_for_page [OF ok, of acc] obtain ls where
        f: "centris_for lo hi t (ct_items p') acc = Inr ls" by blast
      from Cons.prems(1) True ok have
        "\<not> ct_next_active p' \<or>
           (\<exists>q \<in> set rest. \<not> ct_next_active q \<or> \<not> centris_page_ok lo hi t q)" by auto
      moreover from Cons.prems(2) have "1 < n + 1" by simp
      ultimately obtain y where "centris_while lo hi t (p', rest) (n + 1, ls) = Some y"
        using Cons.IH [of p' "n + 1" ls] by blast
      then show ?thesis using centris_while_click [OF True Cons.prems(2) f] by simp
    qed
  qed
qed

lemma centris_evaluate_Some_iff:
  "(\<exists>y. centris_evaluate lo hi t b = Some y) \<longleftrightarrow> (\<exists>y. centris_while lo hi t b (1, []) = Some y)"
  by (auto simp: centris_evaluate_def split: option.splits sum.splits prod.splits)

lemma centris_evaluate_returns:
  assumes "\<exists>q \<in> set (p # rest). \<not> ct_next_active q \<or> \<not> centris_page_ok lo hi t q"
  shows "\<exists>y. centris_evaluate lo hi t (p, rest) = Some y"
  unfolding centris_evaluate_Some_iff
proof (cases "ct_next_active p")
  case False
  then show "\<exists>y. centris_while lo hi t (p, rest) (1, []) = Some y"
    by (simp add: centris_while_inactive)
next
  case True
  show "\<exists>y. centris_while lo hi t (p, rest) (1, []) = Some y"
  proof (cases "centris_page_ok lo hi t p")
    case False
    from centris_for_raises [OF False, of "[]"] obtain e where
      "centris_for lo hi t (ct_items p) [] = Inl e" by blast
    from centris_while_raises [OF True this] show ?thesis by simp
  next
    case ok: True
    from centris_for_page [OF ok, of "[]"] obtain ls where
      f: "centris_for lo hi t (ct_items p) [] = Inr ls" by blast
    from assms True ok have
      "\<not> ct_next_active p \<or>
         (\<exists>q \<in> set rest. \<not> ct_next_active q \<or> \<not> centris_page_ok lo hi t q)" by auto
    from centris_while_returns [OF this, of 2 ls] obtain y where
      "centris_while lo hi t (p, rest) (2, ls) = Some y" by auto
    then show ?thesis using centris_while_first [OF True f] by simp
  qed
qed

lemma centris_while_returns_only_if:
  assumes "centris_while lo hi t b st = Some y"
  shows "\<exists>q \<in> set (fst b # snd b). \<not> ct_next_active q \<or> \<not> centris_page_ok lo hi t q"
proof (rule centris_while.raw_induct [where P = "\<lambda>lo hi t b st y.
         \<exists>q \<in> set (fst b # snd b). \<not> ct_next_active q \<or> \<not> centris_page_ok lo hi t q",
         OF _ assms])
  fix cw :: "int \<Rightarrow> int \<Rightarrow> string \<Rightarrow> centris_page \<times> centris_page list \<Rightarrow> nat \<times> listings
      \<Rightarrow> (error + nat \<times> listings) option"
    and lo hi t b and st :: "nat \<times> listings" and y :: "error + nat \<times> listings"
  assume IH: "\<And>lo hi t b st y. cw lo hi t b st = Some y \<Longrightarrow>
         \<exists>q \<in> set (fst b # snd b). \<not> ct_next_active q \<or> \<not> centris_page_ok lo hi t q"
    and eq: "(if \<not> ct_next_active (fst b) then Some (Inr st)
      else let b' = if 1 < fst st then centris_click b else b
           in case centris_for lo hi t (ct_items (fst b')) (snd st) of
              Inl e \<Rightarrow> Some (Inl e)
              | Inr listings' \<Rightarrow> cw lo hi t b' (fst st + 1, listings')) = Some y"
  show "\<exists>q \<in> set (fst b # snd b). \<not> ct_next_active q \<or> \<not> centris_page_ok lo hi t q"
  proof (cases "ct_next_active (fst b)")
    case False
    then show ?thesis by auto
  next
    case True
    define b' where "b' = (if 1 < fst st then centris_click b else b)"
    have sub: "set (fst b' # snd b') \<subseteq> set (fst b # snd b)"
      using centris_click_pages [of b] by (auto simp: b'_def)
    show ?thesis
    proof (cases "centris_for lo hi t (ct_items (fst b')) (snd st)")
      case (Inl e)
      have "\<not> centris_page_ok lo hi t (fst b')"
      proof
        assume "centris_page_ok lo hi t (fst b')"
        from centris_for_page [OF this, of "snd st"] Inl show False by auto
      qed
      moreover have "fst b' \<in> set (fst b # snd b)" using sub by auto
      ultimately show ?thesis by blast
    next
      case (Inr listings')
      with eq True have "cw lo hi t b' (fst st + 1, listings') = Some y"
        by (simp add: b'_def Let_def)
      from IH [OF this] sub show ?thesis by blast
    qed
  qed
qed

lemma centris_evaluate_returns_iff:
  "(\<exists>y. centris_evaluate lo hi t (p, rest) = Some y) \<longleftrightarrow>
   (\<exists>q \<in> set (p # rest). \<not> ct_next_active q \<or> \<not> centris_page_ok lo hi t q)"
proof
  assume "\<exists>y. centris_evaluate lo hi t (p, rest) = Some y"
  then obtain y where "centris_while lo hi t (p, rest) (1, []) = Some y"
    unfolding centris_evaluate_Some_iff by blast
  from centris_while_returns_only_if [OF this]
  show "\<exists>q \<in> set (p # rest). \<not> ct_next_active q \<or> \<not> centris_page_ok lo hi t q" by simp
next
  assume "\<exists>q \<in> set (p # rest). \<not> ct_next_active q \<or> \<not> centris_page_ok lo hi t q"
  then show "\<exists>y. centris_evaluate lo hi t (p, rest) = Some y"
    by (rule centris_evaluate_returns)
qed

lemma main_returns_iff:
  "(\<exists>r. main w = Some r) \<longleftrightarrow>
   (\<exists>q \<in> set (pages (centris w)).
      \<not> ct_next_active q \<or> \<not> centris_page_ok (minPrice w) (maxPrice w) (formatDate (today w)) q)
   \<or> centris w = Goto_fails"
proof -
  have m: "(\<exists>r. main w = Some r) \<longleftrightarrow>
     scanCentrisListings (today w) (minPrice w) (maxPrice w) (centris w) \<noteq> None"
    using scanDuproprioListings_Inr [of "today w" "duproprio w"]
      scanSuttonListings_Inr [of "today w" "sutton w"]
    by (auto simp: main_def scan_websites_def split: option.splits sum.splits)
  show ?thesis
  proof (cases "centris w")
    case Goto_fails
    then show ?thesis using m by (simp add: scanCentrisListings_def)
  next
    case (Goto_loads p rest)
    have "scanCentrisListings (today w) (minPrice w) (maxPrice w) (centris w) \<noteq> None \<longleftrightarrow>
      (\<exists>y. centris_evaluate (minPrice w) (maxPrice w) (formatDate (today w)) (p, rest) = Some y)"
      by (auto simp: scanCentrisListings_def Goto_loads split: option.splits sum.splits)
    then show ?thesis using m Goto_loads
      by (simp add: centris_evaluate_returns_iff pages_def)
  qed
qed

end
